theory Spec2Isabelle
  imports Main "HOL-Library.Word"
begin

section \<open>JavaScript strings and arrays\<close>

text \<open>
  A JavaScript string is a sequence of UTF-16 code units. The functions below are the
  library operations that \<^verbatim>\<open>commands.ts\<close> calls on strings and arrays:
  \<^verbatim>\<open>Array.prototype.join\<close>, \<^verbatim>\<open>String.prototype.split\<close> with a string separator,
  \<^verbatim>\<open>String.prototype.trimEnd\<close> and \<^verbatim>\<open>replace(/\/+$/, "")\<close>.
\<close>

type_synonym jsstring = "16 word list"

definition js :: "string \<Rightarrow> jsstring" where
  \<comment> \<open>an ASCII literal of the source, as code units\<close>
  "js s = map of_char s"

fun join :: "'a list \<Rightarrow> 'a list list \<Rightarrow> 'a list" where
  \<comment> \<open>\<^verbatim>\<open>xs.join(sep)\<close>\<close>
  "join sep [] = []"
| "join sep [x] = x"
| "join sep (x # y # ys) = x @ sep @ join sep (y # ys)"

fun split_from :: "'a list \<Rightarrow> 'a list \<Rightarrow> 'a list \<Rightarrow> 'a list list" where
  \<comment> \<open>scan for the next occurrence of a non-empty separator; \<open>cur\<close> holds the current
      piece, reversed\<close>
  "split_from sep cur [] = [rev cur]"
| "split_from sep cur (c # cs) =
     (if sep \<noteq> [] \<and> take (length sep) (c # cs) = sep
      then rev cur # split_from sep [] (drop (length sep) (c # cs))
      else split_from sep (c # cur) cs)"

definition split :: "'a list \<Rightarrow> 'a list \<Rightarrow> 'a list list" where
  \<comment> \<open>\<^verbatim>\<open>s.split(sep)\<close>; an empty separator splits between code units\<close>
  "split s sep = (if sep = [] then map (\<lambda>c. [c]) s else split_from sep [] s)"

definition isWhiteSpace :: "16 word \<Rightarrow> bool" where
  \<comment> \<open>ECMAScript WhiteSpace and LineTerminator code points, all in the basic plane\<close>
  "isWhiteSpace c \<longleftrightarrow>
     c \<in> {0x0009, 0x000A, 0x000B, 0x000C, 0x000D, 0x0020, 0x00A0, 0x1680,
          0x2028, 0x2029, 0x202F, 0x205F, 0x3000, 0xFEFF}
     \<or> (0x2000 \<le> c \<and> c \<le> 0x200A)"

definition dropTrailing :: "('a \<Rightarrow> bool) \<Rightarrow> 'a list \<Rightarrow> 'a list" where
  "dropTrailing P s = rev (dropWhile P (rev s))"

definition trimEnd_js :: "jsstring \<Rightarrow> jsstring" where
  \<comment> \<open>\<^verbatim>\<open>s.trimEnd()\<close>\<close>
  "trimEnd_js s = dropTrailing isWhiteSpace s"

definition replaceTrailingSlashes :: "jsstring \<Rightarrow> jsstring" where
  \<comment> \<open>\<^verbatim>\<open>s.replace(/\/+$/, "")\<close>: the only match of the pattern is the maximal run of
      slashes that ends the string\<close>
  "replaceTrailingSlashes s = dropTrailing (\<lambda>c. c = 0x2F) s"


section \<open>Errors and promises\<close>

text \<open>
  \<open>TypeError\<close> is what JavaScript throws when a property of \<^verbatim>\<open>null\<close> or \<^verbatim>\<open>undefined\<close> is
  read. The other errors are those of the specification's taxonomy. A promise is pending,
  fulfilled with a value or rejected with an error.
\<close>

datatype backend_error = NotFound | Denied | Conflict

datatype error =
    TypeError
  | UnsupportedOperation
  | PermissionDenied
  | EmptyClipboard
  | AggregateError "(jsstring list \<times> backend_error) list"

datatype 'a promise = Pending | Fulfilled 'a | Rejected error

definition settled :: "'a promise \<Rightarrow> bool" where
  "settled p \<longleftrightarrow> p \<noteq> Pending"

definition allSettled :: "'a promise list \<Rightarrow> 'a promise list promise" where
  \<comment> \<open>\<^verbatim>\<open>Promise.allSettled\<close>: fulfilled with the outcomes once none is pending, never rejected\<close>
  "allSettled ps = (if list_all settled ps then Fulfilled ps else Pending)"


section \<open>Resources and resource identifiers\<close>

text \<open>
  \<^verbatim>\<open>IFSResource\<close> is declared in \<^verbatim>\<open>filesystem.ts\<close>; \<^verbatim>\<open>idFromResource\<close> reads its
  \<^verbatim>\<open>name\<close> and \<^verbatim>\<open>drive\<close>.
\<close>

record resource =
  name :: jsstring
  drive :: jsstring

definition idFromResource :: "resource \<Rightarrow> jsstring" where
  "idFromResource resource =
     join (js ''_'') [join (js '''') (split (name resource) (js '' '')), drive resource]"


section \<open>Contents, models, widgets and the tracker\<close>

text \<open>
  What the commands read of their collaborators. A \<^verbatim>\<open>Content\<close> wraps a row and offers
  \<^verbatim>\<open>hasChildren\<close>, \<^verbatim>\<open>pathstr\<close> and the method \<^verbatim>\<open>getPathAtDepth\<close>; a model holds the
  selection, the last selected content and the root; the tracker holds the current
  widget, if any. A property that the source tests for presence is an option. The tree
  element offers a selection of its own beside its model's.
\<close>

record row =
  path :: "jsstring list"
  kind :: jsstring
  writable :: bool
  row_name :: jsstring

record content =
  row :: row
  hasChildren :: bool
  pathstr :: jsstring
  getPathAtDepth :: "nat \<Rightarrow> jsstring list"

record model =
  selection :: "content list option"
  selectedLast :: "content option"
  root :: content

record treefinder =
  tf_model :: "model option"
  tf_selection :: "content list option"

record widget =
  treefinder :: treefinder
  url :: "jsstring option"

record tracker =
  currentWidget :: "widget option"

definition currentWidgetSelectionIsWritable :: "tracker \<Rightarrow> bool" where
  "currentWidgetSelectionIsWritable tracker =
     (case currentWidget tracker of
        None \<Rightarrow> False
      | Some w \<Rightarrow>
          (case tf_model (treefinder w) of
             None \<Rightarrow> False
           | Some m \<Rightarrow>
               (case selection m of
                  None \<Rightarrow> False
                | Some sel \<Rightarrow> list_all (\<lambda>x. writable (row x)) sel)))"

definition cut_isEnabled :: "tracker \<Rightarrow> bool" where
  "cut_isEnabled tracker = currentWidgetSelectionIsWritable tracker"

definition delete_isEnabled :: "tracker \<Rightarrow> bool" where
  "delete_isEnabled tracker = currentWidgetSelectionIsWritable tracker"

definition rename_isEnabled :: "tracker \<Rightarrow> bool" where
  "rename_isEnabled tracker = currentWidgetSelectionIsWritable tracker"

text \<open>A tracker whose current widget shows the given selection.\<close>

definition widget_of :: "content list \<Rightarrow> content \<Rightarrow> jsstring option \<Rightarrow> widget" where
  "widget_of sel r u =
     \<lparr>treefinder =
        \<lparr>tf_model = Some \<lparr>selection = Some sel,
                           selectedLast = (if sel = [] then None else Some (last sel)),
                           root = r\<rparr>,
         tf_selection = Some sel\<rparr>,
      url = u\<rparr>"

definition tracker_of :: "content list \<Rightarrow> content \<Rightarrow> jsstring option \<Rightarrow> tracker" where
  "tracker_of sel r u = \<lparr>currentWidget = Some (widget_of sel r u)\<rparr>"

definition mk_content :: "string list \<Rightarrow> string \<Rightarrow> bool \<Rightarrow> content" where
  "mk_content p k w =
     \<lparr>row = \<lparr>path = map js p, kind = js k, writable = w,
              row_name = (if p = [] then [] else js (last p))\<rparr>,
      hasChildren = (k = ''dir''),
      pathstr = join (js ''/'') (map js p),
      getPathAtDepth = (\<lambda>depth. drop depth (map js p))\<rparr>"



section \<open>The path commands\<close>

definition getRelativePaths :: "content list \<Rightarrow> jsstring list" where
  \<comment> \<open>\<^verbatim>\<open>_getRelativePaths\<close>: the loop pushes one joined path per selected file\<close>
  "getRelativePaths selectedFiles =
     foldl (\<lambda>allPaths file. allPaths @ [join (js ''/'') (getPathAtDepth file 1)])
       [] selectedFiles"

definition trimEnd :: "jsstring \<Rightarrow> jsstring" where
  \<comment> \<open>the local \<^verbatim>\<open>trimEnd\<close> of \<^verbatim>\<open>copyFullPath\<close>\<close>
  "trimEnd p = replaceTrailingSlashes (trimEnd_js p)"

text \<open>
  Both handlers are \<^verbatim>\<open>async\<close>: reading a property of an absent widget or iterating an
  absent selection rejects with a \<open>TypeError\<close>. Otherwise the result is the text handed to
  \<^verbatim>\<open>navigator.clipboard.writeText\<close>.
\<close>

definition copyFullPath_execute :: "tracker \<Rightarrow> error + jsstring" where
  "copyFullPath_execute tracker =
     (case currentWidget tracker of
        None \<Rightarrow> Inl TypeError
      | Some widget \<Rightarrow>
          (case tf_selection (treefinder widget) of
             None \<Rightarrow> Inl TypeError
           | Some sel \<Rightarrow>
               (let fullPaths =
                      map (\<lambda>relativePath.
                             join (js ''/'')
                               [trimEnd (case url widget of None \<Rightarrow> [] | Some u \<Rightarrow> u),
                                relativePath])
                        (getRelativePaths sel)
                in Inr (join [0x0A] fullPaths))))"

definition copyRelativePath_execute :: "tracker \<Rightarrow> error + jsstring" where
  "copyRelativePath_execute tracker =
     (case currentWidget tracker of
        None \<Rightarrow> Inl TypeError
      | Some widget \<Rightarrow>
          (case tf_selection (treefinder widget) of
             None \<Rightarrow> Inl TypeError
           | Some sel \<Rightarrow> Inr (join [0x0A] (getRelativePaths sel))))"


section \<open>The clipboard commands\<close>

text \<open>
  The handlers of Copy, Cut, Delete and Paste hand the current widget's model to the
  clipboard model. The result of each handler below is the argument of that call; a
  missing widget is a \<open>TypeError\<close>, and a missing model is passed on as it is.
\<close>

definition copy_execute :: "tracker \<Rightarrow> error + model option" where
  "copy_execute tracker =
     (case currentWidget tracker of
        None \<Rightarrow> Inl TypeError
      | Some w \<Rightarrow> Inr (tf_model (treefinder w)))"

definition copy_isVisible :: "tracker \<Rightarrow> error + bool" where
  "copy_isVisible tracker =
     (case currentWidget tracker of
        None \<Rightarrow> Inr False
      | Some widget \<Rightarrow>
          (case tf_model (treefinder widget) of
             None \<Rightarrow> Inr True
           | Some m \<Rightarrow>
               (case selection m of
                  None \<Rightarrow> Inl TypeError
                | Some sel \<Rightarrow>
                    if list_ex (\<lambda>v. kind (row v) = js ''dir'') sel then Inr False
                    else Inr True)))"

definition cut_execute :: "tracker \<Rightarrow> error + model option" where
  "cut_execute tracker =
     (case currentWidget tracker of
        None \<Rightarrow> Inl TypeError
      | Some w \<Rightarrow> Inr (tf_model (treefinder w)))"

definition delete_execute :: "tracker \<Rightarrow> error + model option" where
  "delete_execute tracker =
     (case currentWidget tracker of
        None \<Rightarrow> Inl TypeError
      | Some w \<Rightarrow> Inr (tf_model (treefinder w)))"

definition paste_execute :: "tracker \<Rightarrow> error + model option" where
  "paste_execute tracker =
     (case currentWidget tracker of
        None \<Rightarrow> Inl TypeError
      | Some w \<Rightarrow> Inr (tf_model (treefinder w)))"

definition paste_isEnabled :: "tracker \<Rightarrow> bool" where
  "paste_isEnabled tracker \<longleftrightarrow> currentWidget tracker \<noteq> None"


section \<open>Rename, download and new folder\<close>

text \<open>
  These handlers call collaborators that return promises: \<^verbatim>\<open>TreeFinderSidebar.doRename\<close>,
  \<^verbatim>\<open>widget.download\<close>, \<^verbatim>\<open>getContentParent\<close>, \<^verbatim>\<open>contentsProxy.newUntitled\<close>,
  \<^verbatim>\<open>revealAndSelectPath\<close> and \<^verbatim>\<open>TreeFinderSidebar.scrollIntoView\<close>. The eventual state
  of each returned promise is a parameter. A handler yields the calls it makes on its
  collaborators, in order, and what its caller gets.
\<close>

datatype effect =
    DoRename widget "content option"
  | RenamerNext jsstring "content option"
  | SetRow "content option" row
  | Download jsstring bool
  | GetContentParent content content
  | NewUntitled jsstring jsstring
  | Invalidate content
  | RevealAndSelectPath model "jsstring list"
  | RefreshNext "row list" content
  | ScrollIntoView treefinder jsstring

text \<open>
  Rename is not \<^verbatim>\<open>async\<close>: an absent widget or selection throws. The promise of
  \<^verbatim>\<open>doRename\<close> is discarded with \<^verbatim>\<open>void\<close>, so the handler returns as soon as the call is
  made, and the callback runs once the promise is fulfilled. \<^verbatim>\<open>selection[0]\<close> of an empty
  selection is \<^verbatim>\<open>undefined\<close>; then the assignment in the callback throws inside the
  discarded promise.
\<close>

definition rename_execute ::
  "(widget \<Rightarrow> content option \<Rightarrow> row promise) \<Rightarrow> tracker \<Rightarrow> error + effect list" where
  "rename_execute doRename tracker =
     (case currentWidget tracker of
        None \<Rightarrow> Inl TypeError
      | Some widget \<Rightarrow>
          (case tf_selection (treefinder widget) of
             None \<Rightarrow> Inl TypeError
           | Some sel \<Rightarrow>
               (let oldContent = (case sel of [] \<Rightarrow> None | x # _ \<Rightarrow> Some x)
                in Inr (DoRename widget oldContent #
                     (case doRename widget oldContent of
                        Fulfilled newContent \<Rightarrow>
                          (case tf_model (treefinder widget) of
                             None \<Rightarrow> []
                           | Some _ \<Rightarrow> [RenamerNext (row_name newContent) oldContent])
                          @ (case oldContent of
                               None \<Rightarrow> []
                             | Some _ \<Rightarrow> [SetRow oldContent newContent])
                      | _ \<Rightarrow> [])))))"

text \<open>
  Download is \<^verbatim>\<open>async\<close>: an absent widget or selection rejects. It awaits
  \<^verbatim>\<open>Promise.allSettled\<close> of one \<^verbatim>\<open>widget.download(s.pathstr, s.hasChildren)\<close> per selected
  item.
\<close>

definition download_execute ::
  "(jsstring \<Rightarrow> bool \<Rightarrow> unit promise) \<Rightarrow> tracker \<Rightarrow> effect list \<times> unit promise" where
  "download_execute download tracker =
     (case currentWidget tracker of
        None \<Rightarrow> ([], Rejected TypeError)
      | Some widget \<Rightarrow>
          (case tf_selection (treefinder widget) of
             None \<Rightarrow> ([], Rejected TypeError)
           | Some sel \<Rightarrow>
               (map (\<lambda>s. Download (pathstr s) (hasChildren s)) sel,
                (case allSettled (map (\<lambda>s. download (pathstr s) (hasChildren s)) sel) of
                   Fulfilled _ \<Rightarrow> Fulfilled ()
                 | Pending \<Rightarrow> Pending
                 | Rejected e \<Rightarrow> Rejected e))))"

record collaborators =
  getContentParent :: "content \<Rightarrow> content \<Rightarrow> content promise"
  fromarray :: "jsstring list \<Rightarrow> jsstring"
  newUntitled :: "jsstring \<Rightarrow> jsstring \<Rightarrow> row promise"
  revealAndSelectPath :: "model \<Rightarrow> jsstring list \<Rightarrow> content promise"
  scrollIntoView :: "treefinder \<Rightarrow> jsstring \<Rightarrow> unit promise"
  doRename :: "widget \<Rightarrow> content option \<Rightarrow> row promise"

definition create_folder_target :: "collaborators \<Rightarrow> model \<Rightarrow> effect list \<times> content promise" where
  \<comment> \<open>the first statements of the handler: \<^verbatim>\<open>target\<close> before \<^verbatim>\<open>Path.fromarray\<close>\<close>
  "create_folder_target env m =
     (let target = (case selectedLast m of Some c \<Rightarrow> c | None \<Rightarrow> root m)
      in if \<not> hasChildren target
         then ([GetContentParent target (root m)], getContentParent env target (root m))
         else ([], Fulfilled target))"

definition create_folder_rename ::
  "collaborators \<Rightarrow> widget \<Rightarrow> content \<Rightarrow> effect list \<times> unit promise" where
  \<comment> \<open>the last statements of the handler, from \<^verbatim>\<open>doRename\<close> on\<close>
  "create_folder_rename env widget content =
     (case doRename env widget (Some content) of
        Pending \<Rightarrow> ([DoRename widget (Some content)], Pending)
      | Rejected e \<Rightarrow> ([DoRename widget (Some content)], Rejected e)
      | Fulfilled newContent \<Rightarrow>
          ([DoRename widget (Some content),
            RenamerNext (row_name newContent) (Some content),
            SetRow (Some content) newContent], Fulfilled ()))"

definition create_folder_create ::
  "collaborators \<Rightarrow> widget \<Rightarrow> model \<Rightarrow> content \<Rightarrow> effect list \<times> unit promise" where
  \<comment> \<open>the statements from \<^verbatim>\<open>Path.fromarray\<close> on, for the resolved target\<close>
  "create_folder_create env widget m target =
     (let p = fromarray env (path (row target))
      in case newUntitled env (js ''directory'') p of
           Pending \<Rightarrow> ([NewUntitled (js ''directory'') p], Pending)
         | Rejected e \<Rightarrow> ([NewUntitled (js ''directory'') p], Rejected e)
         | Fulfilled r \<Rightarrow>
             (case revealAndSelectPath env m (path r) of
                Pending \<Rightarrow>
                  ([NewUntitled (js ''directory'') p, Invalidate target, RevealAndSelectPath m (path r)], Pending)
              | Rejected e \<Rightarrow>
                  ([NewUntitled (js ''directory'') p, Invalidate target, RevealAndSelectPath m (path r)], Rejected e)
              | Fulfilled content \<Rightarrow>
                  (let pre = [NewUntitled (js ''directory'') p, Invalidate target, RevealAndSelectPath m (path r),
                              RefreshNext [row target] (root m),
                              ScrollIntoView (treefinder widget) (pathstr content)]
                   in case scrollIntoView env (treefinder widget) (pathstr content) of
                        Pending \<Rightarrow> (pre, Pending)
                      | Rejected e \<Rightarrow> (pre, Rejected e)
                      | Fulfilled _ \<Rightarrow>
                          (pre @ fst (create_folder_rename env widget content),
                           snd (create_folder_rename env widget content)))))"

definition create_folder_execute :: "collaborators \<Rightarrow> tracker \<Rightarrow> effect list \<times> unit promise" where
  "create_folder_execute env tracker =
     (case currentWidget tracker of
        None \<Rightarrow> ([], Rejected TypeError)
      | Some widget \<Rightarrow>
          (case tf_model (treefinder widget) of
             None \<Rightarrow> ([], Rejected TypeError)
           | Some m \<Rightarrow>
               (case create_folder_target env m of
                  (es, Pending) \<Rightarrow> (es, Pending)
                | (es, Rejected e) \<Rightarrow> (es, Rejected e)
                | (es, Fulfilled target) \<Rightarrow>
                    (es @ fst (create_folder_create env widget m target),
                     snd (create_folder_create env widget m target)))))"


section \<open>The clipboard engine of the specification\<close>

text \<open>
  The handlers of Copy, Cut, Delete and Paste end in \<^verbatim>\<open>clipboard.model\<close>, whose code
  (\<^verbatim>\<open>clipboard.ts\<close> and the clipboard model it wraps) is not among the sources embedded
  here. This section models that engine from the words of the specification (sections 3,
  4.1, 5 and 7).
\<close>

text \<open>
  Modelled from the spec: the clipboard buffer of \<^verbatim>\<open>clipboard.ts\<close>, which is missing.
  The buffer holds at most one pending operation, a mode and the ordered items.
\<close>

datatype mode = Copy | Cut

record clipboardBuffer =
  mode :: mode
  items :: "content list"

text \<open>
  Modelled from the spec: the content backend called by \<^verbatim>\<open>clipboard.ts\<close>, which is
  missing. A copy names its source, the target container and the name of the copy; a
  move names its source and the target container. The backend is given by the outcome
  of each call, \<open>None\<close> for success.
\<close>

datatype backend_call =
    BackendCopy "jsstring list" "jsstring list" jsstring
  | BackendMove "jsstring list" "jsstring list"
  | BackendDelete "jsstring list"

type_synonym backend = "backend_call \<Rightarrow> backend_error option"

text \<open>
  Modelled from the spec: the outcome of an operation of the missing clipboard engine:
  the error it fails with, if any, the buffer afterwards, the backend calls it issued and
  the names it gave to copies.
\<close>

record engine_result =
  failed :: "error option"
  clip :: "clipboardBuffer option"
  calls :: "backend_call list"
  copied :: "jsstring list"

text \<open>
  Modelled from the spec: the aggregate error of a batch of the missing clipboard engine.
  Failures are collected per item; the batch fails with the aggregate when there is one.
\<close>

definition aggregate :: "(jsstring list \<times> backend_error) list \<Rightarrow> error option" where
  "aggregate failures = (if failures = [] then None else Some (AggregateError failures))"

text \<open>
  Modelled from the spec: \<^verbatim>\<open>copySelection\<close> of the missing clipboard engine. It fails with
  \<open>UnsupportedOperation\<close> if any selected item has kind \<^verbatim>\<open>dir\<close>; otherwise it stores
  the selection in copy mode, replacing any prior buffer. No I/O is performed.
\<close>

definition copySelection :: "content list \<Rightarrow> clipboardBuffer option \<Rightarrow> engine_result" where
  "copySelection sel buf =
     (if list_ex (\<lambda>i. kind (row i) = js ''dir'') sel
      then \<lparr>failed = Some UnsupportedOperation, clip = buf, calls = [], copied = []\<rparr>
      else \<lparr>failed = None, clip = Some \<lparr>mode = Copy, items = sel\<rparr>, calls = [], copied = []\<rparr>)"

text \<open>
  Modelled from the spec: \<^verbatim>\<open>cutSelection\<close> of the missing clipboard engine. It requires
  every item to be writable and fails with \<open>PermissionDenied\<close> otherwise; it stores the
  selection in cut mode. A validation error blocks the operation entirely.
\<close>

definition cutSelection :: "content list \<Rightarrow> clipboardBuffer option \<Rightarrow> engine_result" where
  "cutSelection sel buf =
     (if list_all (\<lambda>i. writable (row i)) sel
      then \<lparr>failed = None, clip = Some \<lparr>mode = Cut, items = sel\<rparr>, calls = [], copied = []\<rparr>
      else \<lparr>failed = Some PermissionDenied, clip = buf, calls = [], copied = []\<rparr>)"

text \<open>
  Modelled from the spec: \<^verbatim>\<open>deleteSelection\<close> of the missing clipboard engine. It
  requires every item to be writable; it issues one backend delete per item, each attempted
  independently, and reports the failures as an aggregate.
\<close>

definition deleteSelection ::
  "backend \<Rightarrow> content list \<Rightarrow> clipboardBuffer option \<Rightarrow> engine_result" where
  "deleteSelection be sel buf =
     (if list_all (\<lambda>i. writable (row i)) sel
      then \<lparr>failed = aggregate
               (List.map_filter
                  (\<lambda>i. map_option (Pair (path (row i))) (be (BackendDelete (path (row i))))) sel),
            clip = buf,
            calls = map (\<lambda>i. BackendDelete (path (row i))) sel,
            copied = []\<rparr>
      else \<lparr>failed = Some PermissionDenied, clip = buf, calls = [], copied = []\<rparr>)"

text \<open>
  Modelled from the spec: the name policy of the missing clipboard engine for a copy
  whose name collides with a sibling: append a numeric suffix until the name is unique,
  giving \<^verbatim>\<open>name-1\<close>, \<^verbatim>\<open>name-2\<close> and so on. The suffix is the decimal numeral.
\<close>

definition digit :: "nat \<Rightarrow> 16 word" where
  "digit d = of_nat (48 + d)"

fun decimal :: "nat \<Rightarrow> jsstring" where
  "decimal n = (if n < 10 then [digit n] else decimal (n div 10) @ [digit (n mod 10)])"

declare decimal.simps [simp del]

definition decimal_value :: "jsstring \<Rightarrow> nat" where
  "decimal_value s = foldl (\<lambda>a c. 10 * a + (unat c - 48)) 0 s"

definition suffixed :: "jsstring \<Rightarrow> nat \<Rightarrow> jsstring" where
  "suffixed nm k = nm @ js ''-'' @ decimal k"

text \<open>
  The search for the first free suffix ends because the decimal numerals of different
  numbers differ, so that only finitely many suffixed names are siblings.
\<close>

lemma digit_value: "d < 10 \<Longrightarrow> unat (digit d) - 48 = d"
  unfolding digit_def by (subst unat_of_nat) simp

lemma decimal_value_decimal: "decimal_value (decimal n) = n"
proof (induction n rule: decimal.induct)
  case (1 n)
  show ?case
  proof (cases "n < 10")
    case True
    then show ?thesis
      by (subst decimal.simps) (simp add: decimal_value_def digit_value)
  next
    case False
    with 1 have "decimal_value (decimal (n div 10)) = n div 10"
      by simp
    moreover have "unat (digit (n mod 10)) - 48 = n mod 10"
      by (rule digit_value) simp
    ultimately show ?thesis
      using False by (subst decimal.simps) (simp add: decimal_value_def)
  qed
qed

lemma inj_decimal: "inj decimal"
  by (rule inj_on_inverseI [where g = decimal_value]) (rule decimal_value_decimal)

lemma inj_suffixed: "inj (suffixed nm)"
  using inj_decimal by (auto simp: inj_def suffixed_def)

lemma finite_taken: "finite {j. k \<le> j \<and> suffixed nm j \<in> set siblings}"
proof -
  have "finite (suffixed nm -` set siblings)"
    by (rule finite_vimageI [OF finite_set inj_suffixed])
  moreover have "{j. k \<le> j \<and> suffixed nm j \<in> set siblings} \<subseteq> suffixed nm -` set siblings"
    by auto
  ultimately show ?thesis
    by (rule rev_finite_subset)
qed

function next_free :: "jsstring list \<Rightarrow> jsstring \<Rightarrow> nat \<Rightarrow> nat" where
  "next_free siblings nm k =
     (if suffixed nm k \<in> set siblings then next_free siblings nm (Suc k) else k)"
  by pat_completeness auto
termination
proof (relation "measure (\<lambda>(siblings, nm, k). card {j. k \<le> j \<and> suffixed nm j \<in> set siblings})")
  show "wf (measure (\<lambda>(siblings, nm, k). card {j. k \<le> j \<and> suffixed nm j \<in> set siblings}))"
    by simp
next
  fix siblings :: "jsstring list" and nm :: jsstring and k :: nat
  assume taken: "suffixed nm k \<in> set siblings"
  have "{j. Suc k \<le> j \<and> suffixed nm j \<in> set siblings}
        \<subseteq> {j. k \<le> j \<and> suffixed nm j \<in> set siblings}"
    by auto
  moreover have "k \<in> {j. k \<le> j \<and> suffixed nm j \<in> set siblings}"
    and "k \<notin> {j. Suc k \<le> j \<and> suffixed nm j \<in> set siblings}"
    using taken by simp_all
  ultimately have "{j. Suc k \<le> j \<and> suffixed nm j \<in> set siblings}
        \<subset> {j. k \<le> j \<and> suffixed nm j \<in> set siblings}"
    by blast
  then have "card {j. Suc k \<le> j \<and> suffixed nm j \<in> set siblings}
             < card {j. k \<le> j \<and> suffixed nm j \<in> set siblings}"
    by (rule psubset_card_mono [OF finite_taken])
  then show "((siblings, nm, Suc k), (siblings, nm, k))
             \<in> measure (\<lambda>(siblings, nm, k). card {j. k \<le> j \<and> suffixed nm j \<in> set siblings})"
    by simp
qed

declare next_free.simps [simp del]

definition disambiguate :: "jsstring list \<Rightarrow> jsstring \<Rightarrow> jsstring" where
  "disambiguate siblings nm =
     (if nm \<in> set siblings then suffixed nm (next_free siblings nm 1) else nm)"

text \<open>
  Modelled from the spec: the copy-mode paste of the missing clipboard engine. Each item
  is copied into the target under its name, disambiguated against the siblings and the
  copies made so far; each item is attempted independently and failures are collected.
  The result is the backend calls, the failures and the names of the copies made.
\<close>

fun paste_copy ::
  "backend \<Rightarrow> jsstring list \<Rightarrow> jsstring list \<Rightarrow> content list
   \<Rightarrow> backend_call list \<times> (jsstring list \<times> backend_error) list \<times> jsstring list" where
  "paste_copy be target siblings [] = ([], [], [])"
| "paste_copy be target siblings (i # rest) =
     (let n = disambiguate siblings (row_name (row i));
          c = BackendCopy (path (row i)) target n
      in case be c of
           None \<Rightarrow>
             (case paste_copy be target (siblings @ [n]) rest of
                (cs, fs, ns) \<Rightarrow> (c # cs, fs, n # ns))
         | Some e \<Rightarrow>
             (case paste_copy be target siblings rest of
                (cs, fs, ns) \<Rightarrow> (c # cs, (path (row i), e) # fs, ns)))"

text \<open>
  Modelled from the spec: \<^verbatim>\<open>pasteSelection\<close> of the missing clipboard engine. It fails
  with \<open>EmptyClipboard\<close> when no operation is pending. In copy mode it copies each item
  into the target container, whose present child names are \<open>siblings\<close>, and keeps the
  buffer. In cut mode it issues one backend move per item and clears the buffer on
  success; after a failure the buffer is kept.
\<close>

definition pasteSelection ::
  "backend \<Rightarrow> jsstring list \<Rightarrow> jsstring list \<Rightarrow> clipboardBuffer option \<Rightarrow> engine_result" where
  "pasteSelection be target siblings buf =
     (case buf of
        None \<Rightarrow> \<lparr>failed = Some EmptyClipboard, clip = None, calls = [], copied = []\<rparr>
      | Some b \<Rightarrow>
          (case mode b of
             Copy \<Rightarrow>
               (case paste_copy be target siblings (items b) of
                  (cs, fs, ns) \<Rightarrow>
                    \<lparr>failed = aggregate fs, clip = Some b, calls = cs, copied = ns\<rparr>)
           | Cut \<Rightarrow>
               (let fs = List.map_filter
                           (\<lambda>i. map_option (Pair (path (row i)))
                                  (be (BackendMove (path (row i)) target))) (items b)
                in \<lparr>failed = aggregate fs,
                    clip = (if fs = [] then None else Some b),
                    calls = map (\<lambda>i. BackendMove (path (row i)) target) (items b),
                    copied = []\<rparr>)))"

definition backend_ok :: backend where
  \<comment> \<open>a backend on which every call succeeds\<close>
  "backend_ok c = None"

definition backend_denies_deletes :: backend where
  \<comment> \<open>a backend that refuses every delete and accepts the rest\<close>
  "backend_denies_deletes c = (case c of BackendDelete p \<Rightarrow> Some Denied | _ \<Rightarrow> None)"


section \<open>Sample collaborators\<close>

text \<open>Collaborators used to run the handlers on concrete inputs.\<close>

definition renamed_to :: "string \<Rightarrow> widget \<Rightarrow> content option \<Rightarrow> row promise" where
  \<comment> \<open>the user types the new name \<open>n\<close> into the editor and confirms\<close>
  "renamed_to n w c =
     (case c of
        None \<Rightarrow> Rejected TypeError
      | Some x \<Rightarrow> Fulfilled ((row x)\<lparr>path := butlast (path (row x)) @ [js n], row_name := js n\<rparr>))"

definition download_outcomes :: "jsstring \<Rightarrow> bool \<Rightarrow> unit promise" where
  \<comment> \<open>archives succeed, single files fail\<close>
  "download_outcomes p isContainer = (if isContainer then Fulfilled () else Rejected TypeError)"

definition download_stalls :: "jsstring \<Rightarrow> bool \<Rightarrow> unit promise" where
  \<comment> \<open>archives never finish, single files succeed\<close>
  "download_stalls p isContainer = (if isContainer then Pending else Fulfilled ())"


definition folder_at :: "jsstring list \<Rightarrow> content" where
  \<comment> \<open>a writable directory at the given path\<close>
  "folder_at p =
     \<lparr>row = \<lparr>path = p, kind = js ''dir'', writable = True,
              row_name = (if p = [] then [] else last p)\<rparr>,
      hasChildren = True,
      pathstr = join (js ''/'') p,
      getPathAtDepth = (\<lambda>depth. drop depth p)\<rparr>"

definition sample_env :: collaborators where
  \<comment> \<open>a backend on which every call succeeds: the parent is the directory one segment
      up, the new directory is called \<^verbatim>\<open>Untitled Folder\<close>, and the user renames it to
      \<^verbatim>\<open>data\<close>\<close>
  "sample_env =
     \<lparr>getContentParent = (\<lambda>c r. Fulfilled (folder_at (butlast (path (row c))))),
      fromarray = join (js ''/''),
      newUntitled = (\<lambda>ty p. Fulfilled \<lparr>path = split p (js ''/'') @ [js ''Untitled Folder''],
                                     kind = js ''dir'', writable = True,
                                     row_name = js ''Untitled Folder''\<rparr>),
      revealAndSelectPath = (\<lambda>m p. Fulfilled (folder_at p)),
      scrollIntoView = (\<lambda>tf p. Fulfilled ()),
      doRename = renamed_to ''data''\<rparr>"

section \<open>Lemmas on strings\<close>

lemma join_empty_split_from:
  "join [] (split_from [sp] cur s) = rev cur @ filter (\<lambda>c. c \<noteq> sp) s"
proof (induction s arbitrary: cur)
  case Nil
  show ?case by simp
next
  case (Cons c cs)
  show ?case
  proof (cases "c = sp")
    case True
    have "join [] (rev cur # split_from [sp] [] cs) = rev cur @ join [] (split_from [sp] [] cs)"
      by (cases "split_from [sp] [] cs") simp_all
    with True Cons.IH [of "[]"] show ?thesis by simp
  next
    case False
    with Cons.IH [of "c # cur"] show ?thesis by simp
  qed
qed

lemma join_split_space: "join [] (split s [sp]) = filter (\<lambda>c. c \<noteq> sp) s"
  by (simp add: split_def join_empty_split_from)


section \<open>Resource identifiers\<close>

text \<open>
  C10. \<^verbatim>\<open>idFromResource\<close> returns the resource's name with every space (U+0020) removed,
  then \<^verbatim>\<open>_\<close>, then the drive. Hence two resources of one drive whose names are equal
  once the spaces are removed get the same identifier, and the function is not injective.
\<close>

theorem idFromResource_removes_spaces:
  "idFromResource r = filter (\<lambda>c. c \<noteq> 0x20) (name r) @ js ''_'' @ drive r
   \<and> (\<forall>r'. drive r' = drive r
           \<and> filter (\<lambda>c. c \<noteq> 0x20) (name r') = filter (\<lambda>c. c \<noteq> 0x20) (name r)
         \<longrightarrow> idFromResource r' = idFromResource r)
   \<and> \<not> inj idFromResource"
proof -
  have sp: "js '' '' = [0x20]" and e: "js '''' = []"
    by (simp_all add: js_def)
  have eq: "idFromResource x = filter (\<lambda>c. c \<noteq> 0x20) (name x) @ js ''_'' @ drive x" for x
    by (simp add: idFromResource_def sp e join_split_space)
  let ?a = "\<lparr>name = js ''a b'', drive = js ''d''\<rparr>"
  let ?b = "\<lparr>name = js ''ab'', drive = js ''d''\<rparr>"
  have "idFromResource ?a = idFromResource ?b" and "?a \<noteq> ?b"
    by (simp_all add: eq) (simp_all add: js_def)
  then have "\<not> inj idFromResource"
    by (auto simp: inj_def)
  then show ?thesis
    by (simp add: eq)
qed

theorem idFromResource_removes_spaces_witness:
  "idFromResource \<lparr>name = js ''my files'', drive = js ''s3''\<rparr> = js ''myfiles_s3''
   \<and> idFromResource \<lparr>name = js ''myfiles'', drive = js ''s3''\<rparr>
       = idFromResource \<lparr>name = js ''my files'', drive = js ''s3''\<rparr>
   \<and> \<lparr>name = js ''myfiles'', drive = js ''s3''\<rparr> \<noteq> \<lparr>name = js ''my files'', drive = js ''s3''\<rparr>"
proof -
  let ?r = "\<lparr>name = js ''my files'', drive = js ''s3''\<rparr>"
  let ?r' = "\<lparr>name = js ''myfiles'', drive = js ''s3''\<rparr>"
  note t = idFromResource_removes_spaces [of ?r]
  have f: "filter (\<lambda>c. c \<noteq> 0x20) (name ?r') = filter (\<lambda>c. c \<noteq> 0x20) (name ?r)"
    by (simp add: js_def)
  have d: "drive ?r' = drive ?r"
    by simp
  from t d f have "idFromResource ?r' = idFromResource ?r"
    by blast
  moreover from t have "idFromResource ?r = js ''myfiles_s3''"
    by (simp add: js_def)
  moreover have "?r' \<noteq> ?r"
    by (simp add: js_def)
  ultimately show ?thesis
    by blast
qed


section \<open>Writability of the selection\<close>

text \<open>
  C8. \<^verbatim>\<open>currentWidgetSelectionIsWritable\<close> is false when there is no current widget, when
  the widget has no model and when the model has no selection; it is true when the
  selection is the empty list, so that Cut, Delete and Rename are enabled with nothing
  selected.
\<close>

theorem currentWidgetSelectionIsWritable_absent_empty:
  "(currentWidget t = None \<longrightarrow> \<not> currentWidgetSelectionIsWritable t)
   \<and> (\<forall>w. currentWidget t = Some w \<and> tf_model (treefinder w) = None
          \<longrightarrow> \<not> currentWidgetSelectionIsWritable t)
   \<and> (\<forall>w m. currentWidget t = Some w \<and> tf_model (treefinder w) = Some m \<and> selection m = None
          \<longrightarrow> \<not> currentWidgetSelectionIsWritable t)
   \<and> (\<forall>w m. currentWidget t = Some w \<and> tf_model (treefinder w) = Some m \<and> selection m = Some []
          \<longrightarrow> currentWidgetSelectionIsWritable t \<and> cut_isEnabled t \<and> delete_isEnabled t
              \<and> rename_isEnabled t)"
  by (auto simp: currentWidgetSelectionIsWritable_def cut_isEnabled_def delete_isEnabled_def
      rename_isEnabled_def)

theorem currentWidgetSelectionIsWritable_absent_empty_witness:
  "\<not> currentWidgetSelectionIsWritable \<lparr>currentWidget = None\<rparr>
   \<and> \<not> currentWidgetSelectionIsWritable
         \<lparr>currentWidget = Some \<lparr>treefinder = \<lparr>tf_model = None, tf_selection = None\<rparr>,
                                  url = None\<rparr>\<rparr>
   \<and> \<not> currentWidgetSelectionIsWritable
         \<lparr>currentWidget = Some
            \<lparr>treefinder = \<lparr>tf_model = Some \<lparr>selection = None, selectedLast = None,
                                              root = mk_content [] ''dir'' True\<rparr>,
                            tf_selection = None\<rparr>,
             url = None\<rparr>\<rparr>
   \<and> currentWidgetSelectionIsWritable (tracker_of [] (mk_content [] ''dir'' True) None)
   \<and> cut_isEnabled (tracker_of [] (mk_content [] ''dir'' True) None)
   \<and> delete_isEnabled (tracker_of [] (mk_content [] ''dir'' True) None)
   \<and> rename_isEnabled (tracker_of [] (mk_content [] ''dir'' True) None)"
proof -
  let ?t1 = "\<lparr>currentWidget = None\<rparr>"
  let ?w2 = "\<lparr>treefinder = \<lparr>tf_model = None, tf_selection = None\<rparr>, url = None\<rparr>"
  let ?m3 = "\<lparr>selection = None, selectedLast = None, root = mk_content [] ''dir'' True\<rparr>"
  let ?w3 = "\<lparr>treefinder = \<lparr>tf_model = Some ?m3, tf_selection = None\<rparr>, url = None\<rparr>"
  let ?w4 = "widget_of [] (mk_content [] ''dir'' True) None"
  let ?m4 = "\<lparr>selection = Some [], selectedLast = None, root = mk_content [] ''dir'' True\<rparr>"
  have a: "\<not> currentWidgetSelectionIsWritable ?t1"
    using currentWidgetSelectionIsWritable_absent_empty [of ?t1] by simp
  have b: "\<not> currentWidgetSelectionIsWritable \<lparr>currentWidget = Some ?w2\<rparr>"
    using currentWidgetSelectionIsWritable_absent_empty [of "\<lparr>currentWidget = Some ?w2\<rparr>"]
    by simp
  have c: "\<not> currentWidgetSelectionIsWritable \<lparr>currentWidget = Some ?w3\<rparr>"
    using currentWidgetSelectionIsWritable_absent_empty [of "\<lparr>currentWidget = Some ?w3\<rparr>"]
    by simp
  have "currentWidget (tracker_of [] (mk_content [] ''dir'' True) None) = Some ?w4
        \<and> tf_model (treefinder ?w4) = Some ?m4 \<and> selection ?m4 = Some []"
    by (simp add: tracker_of_def widget_of_def)
  with currentWidgetSelectionIsWritable_absent_empty
         [of "tracker_of [] (mk_content [] ''dir'' True) None"]
  have d: "currentWidgetSelectionIsWritable (tracker_of [] (mk_content [] ''dir'' True) None)
           \<and> cut_isEnabled (tracker_of [] (mk_content [] ''dir'' True) None)
           \<and> delete_isEnabled (tracker_of [] (mk_content [] ''dir'' True) None)
           \<and> rename_isEnabled (tracker_of [] (mk_content [] ''dir'' True) None)"
    by blast
  from a b c d show ?thesis
    by blast
qed


section \<open>Copying paths\<close>

lemma foldl_snoc_map: "foldl (\<lambda>acc x. acc @ [f x]) acc xs = acc @ map f xs"
  by (induction xs arbitrary: acc) simp_all

lemma getRelativePaths_map:
  "getRelativePaths sel = map (\<lambda>file. join (js ''/'') (getPathAtDepth file 1)) sel"
  by (simp add: getRelativePaths_def foldl_snoc_map)

lemma dropTrailing_decomp: "dropTrailing P s @ rev (takeWhile P (rev s)) = s"
proof -
  have "rev (takeWhile P (rev s) @ dropWhile P (rev s)) = s"
    by simp
  then show ?thesis
    unfolding dropTrailing_def rev_append .
qed

lemma dropTrailing_last: "dropTrailing P s \<noteq> [] \<Longrightarrow> \<not> P (last (dropTrailing P s))"
  by (simp add: dropTrailing_def last_rev hd_dropWhile)

lemma dropTrailing_suffix_all: "\<forall>c \<in> set (rev (takeWhile P (rev s))). P c"
  by (auto dest: set_takeWhileD)

lemma trimEnd_decomp:
  "\<exists>slashes spaces.
      u = trimEnd u @ slashes @ spaces
      \<and> (\<forall>c \<in> set slashes. c = 0x2F) \<and> (\<forall>c \<in> set spaces. isWhiteSpace c)
      \<and> (trimEnd u @ slashes = [] \<or> \<not> isWhiteSpace (last (trimEnd u @ slashes)))
      \<and> (trimEnd u = [] \<or> last (trimEnd u) \<noteq> 0x2F)"
proof -
  let ?t = "trimEnd_js u"
  let ?sl = "rev (takeWhile (\<lambda>c. c = 0x2F) (rev ?t))"
  let ?ws = "rev (takeWhile isWhiteSpace (rev u))"
  have t: "trimEnd u @ ?sl = ?t"
    unfolding trimEnd_def replaceTrailingSlashes_def by (rule dropTrailing_decomp)
  have u: "?t @ ?ws = u"
    unfolding trimEnd_js_def by (rule dropTrailing_decomp)
  have 1: "u = trimEnd u @ ?sl @ ?ws"
    by (metis t u append.assoc)
  have 2: "\<forall>c \<in> set ?sl. c = 0x2F"
    by (rule dropTrailing_suffix_all)
  have 3: "\<forall>c \<in> set ?ws. isWhiteSpace c"
    by (rule dropTrailing_suffix_all)
  have "?t = [] \<or> \<not> isWhiteSpace (last ?t)"
    unfolding trimEnd_js_def using dropTrailing_last [of isWhiteSpace u] by blast
  then have 4: "trimEnd u @ ?sl = [] \<or> \<not> isWhiteSpace (last (trimEnd u @ ?sl))"
    unfolding t .
  have 5: "trimEnd u = [] \<or> last (trimEnd u) \<noteq> 0x2F"
    unfolding trimEnd_def replaceTrailingSlashes_def
    using dropTrailing_last [of "\<lambda>c. c = 0x2F" ?t] by blast
  from 1 2 3 4 5 show ?thesis
    by blast
qed

text \<open>
  C9. With a current widget and a selection, Copy Relative Path writes one line per
  selected item, the segments that \<^verbatim>\<open>getPathAtDepth(1)\<close> returns joined by \<^verbatim>\<open>/\<close>, the
  lines joined by a newline. Copy Full Path writes the same lines, each behind the
  trimmed URL and one \<^verbatim>\<open>/\<close>. The trimmed URL is the URL (the empty string when the
  widget has none) without its trailing white space and then without the slashes that
  end what is left: it does not end in a slash, and the URL is the trimmed URL, then
  slashes only, then white space only.
\<close>

theorem copy_path_commands_output:
  assumes "currentWidget t = Some w" and "tf_selection (treefinder w) = Some sel"
  shows "copyRelativePath_execute t
           = Inr (join [0x0A] (map (\<lambda>f. join (js ''/'') (getPathAtDepth f 1)) sel))
         \<and> copyFullPath_execute t
           = Inr (join [0x0A]
                   (map (\<lambda>f. trimEnd (case url w of None \<Rightarrow> [] | Some u \<Rightarrow> u) @ js ''/''
                              @ join (js ''/'') (getPathAtDepth f 1)) sel))
         \<and> (\<forall>u. \<exists>slashes spaces.
                u = trimEnd u @ slashes @ spaces
                \<and> (\<forall>c \<in> set slashes. c = 0x2F) \<and> (\<forall>c \<in> set spaces. isWhiteSpace c)
                \<and> (trimEnd u @ slashes = [] \<or> \<not> isWhiteSpace (last (trimEnd u @ slashes)))
                \<and> (trimEnd u = [] \<or> last (trimEnd u) \<noteq> 0x2F))"
proof -
  have rel: "copyRelativePath_execute t
           = Inr (join [0x0A] (map (\<lambda>f. join (js ''/'') (getPathAtDepth f 1)) sel))"
    using assms by (simp add: copyRelativePath_execute_def getRelativePaths_map)
  have full: "copyFullPath_execute t
           = Inr (join [0x0A]
                   (map (\<lambda>f. trimEnd (case url w of None \<Rightarrow> [] | Some u \<Rightarrow> u) @ js ''/''
                              @ join (js ''/'') (getPathAtDepth f 1)) sel))"
    using assms by (simp add: copyFullPath_execute_def getRelativePaths_map comp_def)
  from rel full trimEnd_decomp show ?thesis
    by blast
qed


theorem copy_path_commands_output_witness:
  "copyRelativePath_execute
     (tracker_of [mk_content [''drive'', ''a'', ''b.txt''] ''file'' True,
                  mk_content [''drive'', ''c''] ''dir'' True]
        (mk_content [] ''dir'' True) (Some (js ''http://h/fs// '')))
     = Inr (js ''a/b.txt'' @ [0x0A] @ js ''c'')
   \<and> copyFullPath_execute
     (tracker_of [mk_content [''drive'', ''a'', ''b.txt''] ''file'' True,
                  mk_content [''drive'', ''c''] ''dir'' True]
        (mk_content [] ''dir'' True) (Some (js ''http://h/fs// '')))
     = Inr (js ''http://h/fs/a/b.txt'' @ [0x0A] @ js ''http://h/fs/c'')"
proof -
  let ?sel = "[mk_content [''drive'', ''a'', ''b.txt''] ''file'' True,
               mk_content [''drive'', ''c''] ''dir'' True]"
  let ?w = "widget_of ?sel (mk_content [] ''dir'' True) (Some (js ''http://h/fs// ''))"
  let ?t = "tracker_of ?sel (mk_content [] ''dir'' True) (Some (js ''http://h/fs// ''))"
  have h1: "currentWidget ?t = Some ?w"
    by (simp add: tracker_of_def)
  have h2: "tf_selection (treefinder ?w) = Some ?sel"
    by (simp add: widget_of_def)
  have u: "url ?w = Some (js ''http://h/fs// '')"
    by (simp add: widget_of_def)
  have tr: "trimEnd (js ''http://h/fs// '') = js ''http://h/fs''"
    by (simp add: trimEnd_def trimEnd_js_def replaceTrailingSlashes_def dropTrailing_def
        isWhiteSpace_def js_def)
  from copy_path_commands_output [OF h1 h2] show ?thesis
    unfolding u by (simp add: tr mk_content_def) (simp add: js_def)
qed


section \<open>Rename\<close>

text \<open>
  C6, as the code has it. With a current widget and a selection that is not empty, the
  Rename handler never fails with \<open>UnsupportedOperation\<close>, whatever the size of the
  selection. It calls \<^verbatim>\<open>doRename\<close> once, on the first selected item, and returns. When
  the promise of \<^verbatim>\<open>doRename\<close> is fulfilled with a new row, the handler publishes the new
  name for that item, if the widget has a model, and replaces that item's row; when the
  promise is pending or rejected, nothing more happens. These are all the effects: the
  other selected items are not touched. The command is enabled exactly when the widget's
  model has a selection whose items are all writable.
\<close>

theorem rename_acts_on_first_item:
  assumes "currentWidget t = Some w" and "tf_selection (treefinder w) = Some (x # xs)"
  shows "rename_execute d t
           = Inr (DoRename w (Some x) #
                  (case d w (Some x) of
                     Fulfilled newContent \<Rightarrow>
                       (case tf_model (treefinder w) of
                          None \<Rightarrow> []
                        | Some m \<Rightarrow> [RenamerNext (row_name newContent) (Some x)])
                       @ [SetRow (Some x) newContent]
                   | Pending \<Rightarrow> []
                   | Rejected e \<Rightarrow> []))
         \<and> rename_execute d t \<noteq> Inl UnsupportedOperation
         \<and> (rename_isEnabled t \<longleftrightarrow>
              (\<exists>m s. tf_model (treefinder w) = Some m \<and> selection m = Some s
                     \<and> list_all (\<lambda>x. writable (row x)) s))"
proof -
  have 1: "rename_execute d t
           = Inr (DoRename w (Some x) #
                  (case d w (Some x) of
                     Fulfilled newContent \<Rightarrow>
                       (case tf_model (treefinder w) of
                          None \<Rightarrow> []
                        | Some m \<Rightarrow> [RenamerNext (row_name newContent) (Some x)])
                       @ [SetRow (Some x) newContent]
                   | Pending \<Rightarrow> []
                   | Rejected e \<Rightarrow> []))"
    using assms by (simp add: rename_execute_def Let_def split: promise.splits)
  then have 2: "rename_execute d t \<noteq> Inl UnsupportedOperation"
    by simp
  have 3: "rename_isEnabled t \<longleftrightarrow>
              (\<exists>m s. tf_model (treefinder w) = Some m \<and> selection m = Some s
                     \<and> list_all (\<lambda>x. writable (row x)) s)"
    using assms(1)
    by (auto simp: rename_isEnabled_def currentWidgetSelectionIsWritable_def
        split: option.splits)
  from 1 2 3 show ?thesis
    by blast
qed

theorem rename_acts_on_first_item_witness:
  "rename_execute (renamed_to ''z.txt'')
     (tracker_of [mk_content [''d'', ''a.txt''] ''file'' True,
                  mk_content [''d'', ''sub''] ''dir'' True,
                  mk_content [''d'', ''c.txt''] ''file'' True]
        (mk_content [] ''dir'' True) None)
     = Inr [DoRename
              (widget_of [mk_content [''d'', ''a.txt''] ''file'' True,
                          mk_content [''d'', ''sub''] ''dir'' True,
                          mk_content [''d'', ''c.txt''] ''file'' True]
                 (mk_content [] ''dir'' True) None)
              (Some (mk_content [''d'', ''a.txt''] ''file'' True)),
            RenamerNext (js ''z.txt'') (Some (mk_content [''d'', ''a.txt''] ''file'' True)),
            SetRow (Some (mk_content [''d'', ''a.txt''] ''file'' True))
              \<lparr>path = [js ''d'', js ''z.txt''], kind = js ''file'', writable = True,
               row_name = js ''z.txt''\<rparr>]
   \<and> rename_execute (renamed_to ''z.txt'')
     (tracker_of [mk_content [''d'', ''a.txt''] ''file'' True,
                  mk_content [''d'', ''sub''] ''dir'' True,
                  mk_content [''d'', ''c.txt''] ''file'' True]
        (mk_content [] ''dir'' True) None)
     \<noteq> Inl UnsupportedOperation
   \<and> rename_isEnabled
     (tracker_of [mk_content [''d'', ''a.txt''] ''file'' True,
                  mk_content [''d'', ''sub''] ''dir'' True,
                  mk_content [''d'', ''c.txt''] ''file'' True]
        (mk_content [] ''dir'' True) None)"
proof -
  let ?a = "mk_content [''d'', ''a.txt''] ''file'' True"
  let ?sel = "[?a, mk_content [''d'', ''sub''] ''dir'' True,
               mk_content [''d'', ''c.txt''] ''file'' True]"
  let ?w = "widget_of ?sel (mk_content [] ''dir'' True) None"
  let ?t = "tracker_of ?sel (mk_content [] ''dir'' True) None"
  have h1: "currentWidget ?t = Some ?w"
    by (simp add: tracker_of_def)
  have h2: "tf_selection (treefinder ?w) = Some ?sel"
    by (simp add: widget_of_def)
  have m: "\<exists>m s. tf_model (treefinder ?w) = Some m \<and> selection m = Some s
                 \<and> list_all (\<lambda>x. writable (row x)) s"
    by (simp add: widget_of_def mk_content_def)
  have d: "renamed_to ''z.txt'' ?w (Some ?a)
           = Fulfilled \<lparr>path = [js ''d'', js ''z.txt''], kind = js ''file'', writable = True,
                        row_name = js ''z.txt''\<rparr>"
    by (simp add: renamed_to_def mk_content_def)
  have tm: "tf_model (treefinder ?w) \<noteq> None"
    by (simp add: widget_of_def)
  note r = rename_acts_on_first_item [OF h1 h2, of "renamed_to ''z.txt''"]
  from r have e: "rename_execute (renamed_to ''z.txt'') ?t
           = Inr (DoRename ?w (Some ?a) #
                  (case renamed_to ''z.txt'' ?w (Some ?a) of
                     Fulfilled newContent \<Rightarrow>
                       (case tf_model (treefinder ?w) of
                          None \<Rightarrow> []
                        | Some m \<Rightarrow> [RenamerNext (row_name newContent) (Some ?a)])
                       @ [SetRow (Some ?a) newContent]
                   | Pending \<Rightarrow> []
                   | Rejected e \<Rightarrow> []))"
    by blast
  have 1: "rename_execute (renamed_to ''z.txt'') ?t
           = Inr [DoRename ?w (Some ?a), RenamerNext (js ''z.txt'') (Some ?a),
                  SetRow (Some ?a)
                    \<lparr>path = [js ''d'', js ''z.txt''], kind = js ''file'', writable = True,
                     row_name = js ''z.txt''\<rparr>]"
    unfolding e d using tm by (auto split: option.splits)
  from r m have 2: "rename_execute (renamed_to ''z.txt'') ?t \<noteq> Inl UnsupportedOperation
                    \<and> rename_isEnabled ?t"
    by blast
  from 1 2 show ?thesis
    by blast
qed

text \<open>
  The claim as stated fails on a selection of two writable files: Rename is enabled, and
  the handler renames the first file instead of failing.
\<close>

theorem rename_two_items_counterexample:
  "length [mk_content [''d'', ''a.txt''] ''file'' True, mk_content [''d'', ''b.txt''] ''file'' True] \<noteq> 1
   \<and> rename_isEnabled
        (tracker_of [mk_content [''d'', ''a.txt''] ''file'' True,
                     mk_content [''d'', ''b.txt''] ''file'' True]
           (mk_content [] ''dir'' True) None)
   \<and> rename_execute (renamed_to ''z.txt'')
        (tracker_of [mk_content [''d'', ''a.txt''] ''file'' True,
                     mk_content [''d'', ''b.txt''] ''file'' True]
           (mk_content [] ''dir'' True) None)
     = Inr [DoRename
              (widget_of [mk_content [''d'', ''a.txt''] ''file'' True,
                          mk_content [''d'', ''b.txt''] ''file'' True]
                 (mk_content [] ''dir'' True) None)
              (Some (mk_content [''d'', ''a.txt''] ''file'' True)),
            RenamerNext (js ''z.txt'') (Some (mk_content [''d'', ''a.txt''] ''file'' True)),
            SetRow (Some (mk_content [''d'', ''a.txt''] ''file'' True))
              \<lparr>path = [js ''d'', js ''z.txt''], kind = js ''file'', writable = True,
               row_name = js ''z.txt''\<rparr>]
   \<and> rename_execute (renamed_to ''z.txt'')
        (tracker_of [mk_content [''d'', ''a.txt''] ''file'' True,
                     mk_content [''d'', ''b.txt''] ''file'' True]
           (mk_content [] ''dir'' True) None)
     \<noteq> Inl UnsupportedOperation"
  by (simp add: rename_isEnabled_def currentWidgetSelectionIsWritable_def rename_execute_def
      tracker_of_def widget_of_def renamed_to_def mk_content_def Let_def)


section \<open>Download\<close>

lemma allSettled_cases:
  "allSettled ps = (if \<forall>p \<in> set ps. p \<noteq> Pending then Fulfilled ps else Pending)"
  by (simp add: allSettled_def settled_def list_all_iff)

text \<open>
  C7. With a current widget and a selection, Download makes one call
  \<^verbatim>\<open>widget.download(pathstr, hasChildren)\<close> per selected item, in the order of the
  selection: the container flag is set exactly for the items that have children. The
  handler's promise is never rejected, whatever the outcomes of the items; it is
  fulfilled exactly when no item's download is pending, and pending as long as one is.
\<close>

theorem download_each_item_all_settled:
  assumes "currentWidget t = Some w" and "tf_selection (treefinder w) = Some sel"
  shows "fst (download_execute d t) = map (\<lambda>s. Download (pathstr s) (hasChildren s)) sel
         \<and> (\<forall>e. snd (download_execute d t) \<noteq> Rejected e)
         \<and> (snd (download_execute d t) = Fulfilled ()
              \<longleftrightarrow> (\<forall>s \<in> set sel. d (pathstr s) (hasChildren s) \<noteq> Pending))
         \<and> (snd (download_execute d t) = Pending
              \<longleftrightarrow> (\<exists>s \<in> set sel. d (pathstr s) (hasChildren s) = Pending))"
  using assms by (simp add: download_execute_def allSettled_cases)

theorem download_each_item_all_settled_witness:
  "download_execute download_outcomes
     (tracker_of [mk_content [''d'', ''a.txt''] ''file'' True,
                  mk_content [''d'', ''sub''] ''dir'' True]
        (mk_content [] ''dir'' True) None)
     = ([Download (js ''d/a.txt'') False, Download (js ''d/sub'') True], Fulfilled ())
   \<and> download_execute download_stalls
     (tracker_of [mk_content [''d'', ''a.txt''] ''file'' True,
                  mk_content [''d'', ''sub''] ''dir'' True]
        (mk_content [] ''dir'' True) None)
     = ([Download (js ''d/a.txt'') False, Download (js ''d/sub'') True], Pending)"
proof -
  let ?sel = "[mk_content [''d'', ''a.txt''] ''file'' True,
               mk_content [''d'', ''sub''] ''dir'' True]"
  let ?w = "widget_of ?sel (mk_content [] ''dir'' True) None"
  let ?t = "tracker_of ?sel (mk_content [] ''dir'' True) None"
  have h1: "currentWidget ?t = Some ?w"
    by (simp add: tracker_of_def)
  have h2: "tf_selection (treefinder ?w) = Some ?sel"
    by (simp add: widget_of_def)
  have a: "\<forall>s \<in> set ?sel. download_outcomes (pathstr s) (hasChildren s) \<noteq> Pending"
    by (simp add: download_outcomes_def)
  have b: "\<exists>s \<in> set ?sel. download_stalls (pathstr s) (hasChildren s) = Pending"
    by (simp add: download_stalls_def mk_content_def)
  have c: "map (\<lambda>s. Download (pathstr s) (hasChildren s)) ?sel
           = [Download (js ''d/a.txt'') False, Download (js ''d/sub'') True]"
    by (simp add: mk_content_def js_def)
  from download_each_item_all_settled [OF h1 h2, of download_outcomes] a c
  have 1: "download_execute download_outcomes ?t
           = ([Download (js ''d/a.txt'') False, Download (js ''d/sub'') True], Fulfilled ())"
    by (simp add: prod_eq_iff)
  from download_each_item_all_settled [OF h1 h2, of download_stalls] b c
  have 2: "download_execute download_stalls ?t
           = ([Download (js ''d/a.txt'') False, Download (js ''d/sub'') True], Pending)"
    by (simp add: prod_eq_iff)
  from 1 2 show ?thesis
    by blast
qed


section \<open>New folder\<close>

lemma create_folder_target_cases:
  "(\<forall>c. selectedLast m = Some c \<and> hasChildren c
        \<longrightarrow> create_folder_target env m = ([], Fulfilled c))
   \<and> (\<forall>c. selectedLast m = Some c \<and> \<not> hasChildren c
        \<longrightarrow> create_folder_target env m
            = ([GetContentParent c (root m)], getContentParent env c (root m)))
   \<and> (selectedLast m = None \<and> hasChildren (root m)
        \<longrightarrow> create_folder_target env m = ([], Fulfilled (root m)))"
  by (simp add: create_folder_target_def)

lemma create_folder_execute_resolved:
  assumes "currentWidget t = Some w" and "tf_model (treefinder w) = Some m"
    and "create_folder_target env m = (pre, Fulfilled target)"
  shows "create_folder_execute env t
         = (pre @ fst (create_folder_create env w m target),
            snd (create_folder_create env w m target))"
  using assms by (simp add: create_folder_execute_def)

lemma create_folder_create_success:
  assumes "newUntitled env (js ''directory'') (fromarray env (path (row target))) = Fulfilled r"
  shows "\<exists>rest. fst (create_folder_create env w m target)
           = [NewUntitled (js ''directory'') (fromarray env (path (row target))), Invalidate target,
              RevealAndSelectPath m (path r)] @ rest
         \<and> (\<forall>content. revealAndSelectPath env m (path r) = Fulfilled content
               \<and> scrollIntoView env (treefinder w) (pathstr content) = Fulfilled ()
             \<longrightarrow> (\<exists>rest'. rest = [RefreshNext [row target] (root m),
                                 ScrollIntoView (treefinder w) (pathstr content),
                                 DoRename w (Some content)] @ rest'))"
  using assms
  by (auto simp: create_folder_create_def create_folder_rename_def Let_def
      split: promise.splits)

text \<open>
  C5. With a current widget and a model, New Folder resolves its target as follows: the
  last selected item when it has children (a directory); the result of
  \<^verbatim>\<open>getContentParent\<close> for the last selected item when it has none (a file); the root
  when nothing is selected, the root being a container, and then \<^verbatim>\<open>newUntitled\<close> is
  called with the root's path. Once the target is resolved and \<^verbatim>\<open>newUntitled\<close> has
  returned the new row, the handler invalidates the target and reveals and selects the
  new row's path; once that and the scrolling have succeeded, the next call is
  \<^verbatim>\<open>doRename\<close> on the new content.
\<close>

theorem create_folder_target_invalidate_rename:
  assumes "currentWidget t = Some w" and "tf_model (treefinder w) = Some m"
  shows "(\<forall>c. selectedLast m = Some c \<and> hasChildren c
            \<longrightarrow> create_folder_target env m = ([], Fulfilled c))
         \<and> (\<forall>c. selectedLast m = Some c \<and> \<not> hasChildren c
            \<longrightarrow> create_folder_target env m
                = ([GetContentParent c (root m)], getContentParent env c (root m)))
         \<and> (selectedLast m = None \<and> hasChildren (root m)
            \<longrightarrow> create_folder_target env m = ([], Fulfilled (root m))
                \<and> (\<exists>rest. fst (create_folder_execute env t)
                      = NewUntitled (js ''directory'') (fromarray env (path (row (root m)))) # rest))
         \<and> (\<forall>pre target r.
               create_folder_target env m = (pre, Fulfilled target)
               \<and> newUntitled env (js ''directory'') (fromarray env (path (row target))) = Fulfilled r
             \<longrightarrow> (\<exists>rest. fst (create_folder_execute env t)
                     = pre @ [NewUntitled (js ''directory'') (fromarray env (path (row target))),
                              Invalidate target, RevealAndSelectPath m (path r)] @ rest
                   \<and> (\<forall>content.
                         revealAndSelectPath env m (path r) = Fulfilled content
                         \<and> scrollIntoView env (treefinder w) (pathstr content) = Fulfilled ()
                       \<longrightarrow> (\<exists>rest'. rest = [RefreshNext [row target] (root m),
                                           ScrollIntoView (treefinder w) (pathstr content),
                                           DoRename w (Some content)] @ rest'))))"
proof -
  note tc = create_folder_target_cases [of m env]
  have root: "\<exists>rest. fst (create_folder_execute env t)
                      = NewUntitled (js ''directory'') (fromarray env (path (row (root m)))) # rest"
    if "selectedLast m = None" and "hasChildren (root m)"
  proof -
    from that tc have "create_folder_target env m = ([], Fulfilled (root m))"
      by blast
    from create_folder_execute_resolved [OF assms this]
    show ?thesis
      by (auto simp: create_folder_create_def create_folder_rename_def Let_def
          split: promise.splits)
  qed
  have succ: "\<exists>rest. fst (create_folder_execute env t)
                     = pre @ [NewUntitled (js ''directory'') (fromarray env (path (row target))),
                              Invalidate target, RevealAndSelectPath m (path r)] @ rest
                   \<and> (\<forall>content.
                         revealAndSelectPath env m (path r) = Fulfilled content
                         \<and> scrollIntoView env (treefinder w) (pathstr content) = Fulfilled ()
                       \<longrightarrow> (\<exists>rest'. rest = [RefreshNext [row target] (root m),
                                           ScrollIntoView (treefinder w) (pathstr content),
                                           DoRename w (Some content)] @ rest'))"
    if "create_folder_target env m = (pre, Fulfilled target)"
      and "newUntitled env (js ''directory'') (fromarray env (path (row target))) = Fulfilled r"
    for pre target r
    using create_folder_execute_resolved [OF assms that(1)]
      create_folder_create_success [OF that(2), of w m]
    by simp
  from tc root succ show ?thesis
    by blast
qed

theorem create_folder_target_invalidate_rename_witness:
  "create_folder_target sample_env
     \<lparr>selection = Some [folder_at [js ''d'', js ''sub'']],
      selectedLast = Some (folder_at [js ''d'', js ''sub'']), root = folder_at [js ''d'']\<rparr>
     = ([], Fulfilled (folder_at [js ''d'', js ''sub'']))
   \<and> create_folder_target sample_env
     \<lparr>selection = Some [mk_content [''d'', ''sub'', ''a.txt''] ''file'' True],
      selectedLast = Some (mk_content [''d'', ''sub'', ''a.txt''] ''file'' True),
      root = folder_at [js ''d'']\<rparr>
     = ([GetContentParent (mk_content [''d'', ''sub'', ''a.txt''] ''file'' True)
           (folder_at [js ''d''])],
        Fulfilled (folder_at [js ''d'', js ''sub'']))
   \<and> create_folder_target sample_env
     \<lparr>selection = Some [], selectedLast = None, root = folder_at [js ''d'']\<rparr>
     = ([], Fulfilled (folder_at [js ''d'']))
   \<and> take 6 (fst (create_folder_execute sample_env (tracker_of [] (folder_at [js ''d'']) None)))
     = [NewUntitled (js ''directory'') (js ''d''),
        Invalidate (folder_at [js ''d'']),
        RevealAndSelectPath
          \<lparr>selection = Some [], selectedLast = None, root = folder_at [js ''d'']\<rparr>
          [js ''d'', js ''Untitled Folder''],
        RefreshNext [row (folder_at [js ''d''])] (folder_at [js ''d'']),
        ScrollIntoView (treefinder (widget_of [] (folder_at [js ''d'']) None))
          (js ''d/Untitled Folder''),
        DoRename (widget_of [] (folder_at [js ''d'']) None)
          (Some (folder_at [js ''d'', js ''Untitled Folder'']))]"
proof -
  let ?root = "folder_at [js ''d'']"
  let ?sub = "folder_at [js ''d'', js ''sub'']"
  let ?file = "mk_content [''d'', ''sub'', ''a.txt''] ''file'' True"
  let ?new = "folder_at [js ''d'', js ''Untitled Folder'']"
  let ?m = "\<lambda>sel. \<lparr>selection = Some sel,
                    selectedLast = (if sel = [] then None else Some (last sel)), root = ?root\<rparr>"
  have h1: "currentWidget (tracker_of sel ?root None) = Some (widget_of sel ?root None)" for sel
    by (simp add: tracker_of_def)
  have h2: "tf_model (treefinder (widget_of sel ?root None)) = Some (?m sel)" for sel
    by (simp add: widget_of_def)
  note dir = create_folder_target_invalidate_rename [OF h1 h2, of "[?sub]" sample_env]
  note fil = create_folder_target_invalidate_rename [OF h1 h2, of "[?file]" sample_env]
  note none = create_folder_target_invalidate_rename [OF h1 h2, of "[]" sample_env]
  have a: "create_folder_target sample_env (?m [?sub]) = ([], Fulfilled ?sub)"
  proof -
    have "selectedLast (?m [?sub]) = Some ?sub \<and> hasChildren ?sub"
      by (simp add: folder_at_def)
    with dir show ?thesis
      by blast
  qed
  have b: "create_folder_target sample_env (?m [?file])
           = ([GetContentParent ?file ?root], Fulfilled ?sub)"
  proof -
    have "selectedLast (?m [?file]) = Some ?file \<and> \<not> hasChildren ?file"
      by (simp add: mk_content_def)
    with fil have "create_folder_target sample_env (?m [?file])
           = ([GetContentParent ?file (root (?m [?file]))],
              getContentParent sample_env ?file (root (?m [?file])))"
      by blast
    then show ?thesis
      by (simp add: sample_env_def mk_content_def)
  qed
  have c: "create_folder_target sample_env (?m []) = ([], Fulfilled ?root)"
  proof -
    have "selectedLast (?m []) = None \<and> hasChildren (root (?m []))"
      by (simp add: folder_at_def)
    with none show ?thesis
      by simp
  qed
  have p: "fromarray sample_env (path (row ?root)) = js ''d''"
    by (simp add: sample_env_def folder_at_def)
  have n: "newUntitled sample_env (js ''directory'') (fromarray sample_env (path (row ?root)))
           = Fulfilled \<lparr>path = [js ''d'', js ''Untitled Folder''], kind = js ''dir'',
                        writable = True, row_name = js ''Untitled Folder''\<rparr>"
    unfolding p by (simp add: sample_env_def split_def) (simp add: js_def)
  from none c n obtain rest where
    r1: "fst (create_folder_execute sample_env (tracker_of [] ?root None))
         = [] @ [NewUntitled (js ''directory'') (fromarray sample_env (path (row ?root))), Invalidate ?root,
                 RevealAndSelectPath (?m []) [js ''d'', js ''Untitled Folder'']] @ rest"
    and r2: "\<forall>content.
               revealAndSelectPath sample_env (?m []) [js ''d'', js ''Untitled Folder'']
                 = Fulfilled content
               \<and> scrollIntoView sample_env (treefinder (widget_of [] ?root None))
                   (pathstr content) = Fulfilled ()
             \<longrightarrow> (\<exists>rest'. rest = [RefreshNext [row ?root] (root (?m [])),
                                 ScrollIntoView (treefinder (widget_of [] ?root None))
                                   (pathstr content),
                                 DoRename (widget_of [] ?root None) (Some content)] @ rest')"
    by (simp del: append.simps) metis
  have "revealAndSelectPath sample_env (?m []) [js ''d'', js ''Untitled Folder''] = Fulfilled ?new
        \<and> scrollIntoView sample_env (treefinder (widget_of [] ?root None)) (pathstr ?new)
            = Fulfilled ()"
    by (simp add: sample_env_def)
  with r2 obtain rest' where
    r3: "rest = [RefreshNext [row ?root] (root (?m [])),
                 ScrollIntoView (treefinder (widget_of [] ?root None)) (pathstr ?new),
                 DoRename (widget_of [] ?root None) (Some ?new)] @ rest'"
    by blast
  have ps: "pathstr ?new = js ''d/Untitled Folder''"
    by (simp add: folder_at_def) (simp add: js_def)
  have d: "take 6 (fst (create_folder_execute sample_env (tracker_of [] ?root None)))
           = [NewUntitled (js ''directory'') (js ''d''), Invalidate ?root,
              RevealAndSelectPath (?m []) [js ''d'', js ''Untitled Folder''],
              RefreshNext [row ?root] ?root,
              ScrollIntoView (treefinder (widget_of [] ?root None)) (js ''d/Untitled Folder''),
              DoRename (widget_of [] ?root None) (Some ?new)]"
    unfolding r1 r3 p ps by simp
  from a b c d show ?thesis
    by simp
qed


section \<open>Copy, cut, delete and paste on the engine of the specification\<close>

text \<open>
  C1. The Copy handler hands the widget's model to \<^verbatim>\<open>copySelection\<close>. When the model's
  selection contains an item of kind \<^verbatim>\<open>dir\<close>, \<^verbatim>\<open>copySelection\<close> fails with
  \<open>UnsupportedOperation\<close>, issues no backend call and leaves the prior buffer as it was,
  and the Copy command is not visible. When the selection has no such item,
  \<^verbatim>\<open>copySelection\<close> stores the selection in copy mode in place of any prior buffer, with no
  backend call, and the command is visible.
\<close>

theorem copy_directory_unsupported:
  assumes "currentWidget t = Some w" and "tf_model (treefinder w) = Some m"
    and "selection m = Some sel"
  shows "copy_execute t = Inr (Some m)
         \<and> ((\<exists>i \<in> set sel. kind (row i) = js ''dir'')
              \<longrightarrow> copySelection sel buf
                    = \<lparr>failed = Some UnsupportedOperation, clip = buf, calls = [], copied = []\<rparr>
                  \<and> copy_isVisible t = Inr False)
         \<and> ((\<forall>i \<in> set sel. kind (row i) \<noteq> js ''dir'')
              \<longrightarrow> copySelection sel buf
                    = \<lparr>failed = None, clip = Some \<lparr>mode = Copy, items = sel\<rparr>,
                       calls = [], copied = []\<rparr>
                  \<and> copy_isVisible t = Inr True)"
  using assms by (simp add: copy_execute_def copySelection_def copy_isVisible_def list_ex_iff)

theorem copy_directory_unsupported_witness:
  "copySelection [mk_content [''d'', ''a.txt''] ''file'' True, mk_content [''d'', ''sub''] ''dir'' True]
     (Some \<lparr>mode = Cut, items = [mk_content [''d'', ''old.txt''] ''file'' True]\<rparr>)
     = \<lparr>failed = Some UnsupportedOperation,
        clip = Some \<lparr>mode = Cut, items = [mk_content [''d'', ''old.txt''] ''file'' True]\<rparr>,
        calls = [], copied = []\<rparr>
   \<and> copy_isVisible
       (tracker_of [mk_content [''d'', ''a.txt''] ''file'' True, mk_content [''d'', ''sub''] ''dir'' True]
          (folder_at [js ''d'']) None) = Inr False
   \<and> copySelection [mk_content [''d'', ''a.txt''] ''file'' True]
     (Some \<lparr>mode = Cut, items = [mk_content [''d'', ''old.txt''] ''file'' True]\<rparr>)
     = \<lparr>failed = None,
        clip = Some \<lparr>mode = Copy, items = [mk_content [''d'', ''a.txt''] ''file'' True]\<rparr>,
        calls = [], copied = []\<rparr>
   \<and> copy_isVisible
       (tracker_of [mk_content [''d'', ''a.txt''] ''file'' True] (folder_at [js ''d'']) None)
     = Inr True"
proof -
  let ?a = "mk_content [''d'', ''a.txt''] ''file'' True"
  let ?sub = "mk_content [''d'', ''sub''] ''dir'' True"
  let ?buf = "Some \<lparr>mode = Cut, items = [mk_content [''d'', ''old.txt''] ''file'' True]\<rparr>"
  let ?m = "\<lambda>sel. \<lparr>selection = Some sel,
                    selectedLast = (if sel = [] then None else Some (last sel)),
                    root = folder_at [js ''d'']\<rparr>"
  have h1: "currentWidget (tracker_of sel (folder_at [js ''d'']) None)
            = Some (widget_of sel (folder_at [js ''d'']) None)" for sel
    by (simp add: tracker_of_def)
  have h2: "tf_model (treefinder (widget_of sel (folder_at [js ''d'']) None)) = Some (?m sel)"
    for sel
    by (simp add: widget_of_def)
  have h3: "selection (?m sel) = Some sel" for sel
    by simp
  have d: "\<exists>i \<in> set [?a, ?sub]. kind (row i) = js ''dir''"
    by (simp add: mk_content_def)
  have f: "\<forall>i \<in> set [?a]. kind (row i) \<noteq> js ''dir''"
    by (simp add: mk_content_def js_def)
  from copy_directory_unsupported [OF h1 h2 h3, of "[?a, ?sub]" ?buf] d
  have 1: "copySelection [?a, ?sub] ?buf
             = \<lparr>failed = Some UnsupportedOperation, clip = ?buf, calls = [], copied = []\<rparr>
           \<and> copy_isVisible (tracker_of [?a, ?sub] (folder_at [js ''d'']) None) = Inr False"
    by blast
  from copy_directory_unsupported [OF h1 h2 h3, of "[?a]" ?buf] f
  have 2: "copySelection [?a] ?buf
             = \<lparr>failed = None, clip = Some \<lparr>mode = Copy, items = [?a]\<rparr>, calls = [], copied = []\<rparr>
           \<and> copy_isVisible (tracker_of [?a] (folder_at [js ''d'']) None) = Inr True"
    by blast
  from 1 2 show ?thesis
    by blast
qed

text \<open>
  C4. The Cut and Delete handlers hand the widget's model to \<^verbatim>\<open>cutSelection\<close> and
  \<^verbatim>\<open>deleteSelection\<close>, and the two commands are enabled exactly when every selected item is
  writable. When some selected item is not writable, both operations fail with
  \<open>PermissionDenied\<close>, with no backend call and the buffer unchanged. When every item is
  writable, the cut is stored, and the delete issues one backend delete per item and does
  not fail with \<open>PermissionDenied\<close>.
\<close>

theorem cut_delete_require_writable:
  assumes "currentWidget t = Some w" and "tf_model (treefinder w) = Some m"
    and "selection m = Some sel"
  shows "cut_execute t = Inr (Some m) \<and> delete_execute t = Inr (Some m)
         \<and> (cut_isEnabled t \<longleftrightarrow> (\<forall>i \<in> set sel. writable (row i)))
         \<and> (delete_isEnabled t \<longleftrightarrow> (\<forall>i \<in> set sel. writable (row i)))
         \<and> ((\<exists>i \<in> set sel. \<not> writable (row i))
              \<longrightarrow> cutSelection sel buf
                    = \<lparr>failed = Some PermissionDenied, clip = buf, calls = [], copied = []\<rparr>
                  \<and> deleteSelection be sel buf
                    = \<lparr>failed = Some PermissionDenied, clip = buf, calls = [], copied = []\<rparr>)
         \<and> ((\<forall>i \<in> set sel. writable (row i))
              \<longrightarrow> cutSelection sel buf
                    = \<lparr>failed = None, clip = Some \<lparr>mode = Cut, items = sel\<rparr>,
                       calls = [], copied = []\<rparr>
                  \<and> failed (deleteSelection be sel buf) \<noteq> Some PermissionDenied
                  \<and> calls (deleteSelection be sel buf)
                    = map (\<lambda>i. BackendDelete (path (row i))) sel)"
  using assms
  by (simp add: cut_execute_def delete_execute_def cut_isEnabled_def delete_isEnabled_def
      currentWidgetSelectionIsWritable_def cutSelection_def deleteSelection_def
      aggregate_def list_all_iff)

theorem cut_delete_require_writable_witness:
  "\<not> cut_isEnabled
       (tracker_of [mk_content [''d'', ''a.txt''] ''file'' True,
                    mk_content [''d'', ''ro.txt''] ''file'' False] (folder_at [js ''d'']) None)
   \<and> \<not> delete_isEnabled
       (tracker_of [mk_content [''d'', ''a.txt''] ''file'' True,
                    mk_content [''d'', ''ro.txt''] ''file'' False] (folder_at [js ''d'']) None)
   \<and> cutSelection [mk_content [''d'', ''a.txt''] ''file'' True,
                   mk_content [''d'', ''ro.txt''] ''file'' False] None
     = \<lparr>failed = Some PermissionDenied, clip = None, calls = [], copied = []\<rparr>
   \<and> deleteSelection backend_ok [mk_content [''d'', ''a.txt''] ''file'' True,
                                  mk_content [''d'', ''ro.txt''] ''file'' False] None
     = \<lparr>failed = Some PermissionDenied, clip = None, calls = [], copied = []\<rparr>
   \<and> cut_isEnabled
       (tracker_of [mk_content [''d'', ''a.txt''] ''file'' True] (folder_at [js ''d'']) None)
   \<and> calls (deleteSelection backend_denies_deletes [mk_content [''d'', ''a.txt''] ''file'' True] None)
     = [BackendDelete [js ''d'', js ''a.txt'']]"
proof -
  let ?a = "mk_content [''d'', ''a.txt''] ''file'' True"
  let ?ro = "mk_content [''d'', ''ro.txt''] ''file'' False"
  let ?m = "\<lambda>sel. \<lparr>selection = Some sel,
                    selectedLast = (if sel = [] then None else Some (last sel)),
                    root = folder_at [js ''d'']\<rparr>"
  have h1: "currentWidget (tracker_of sel (folder_at [js ''d'']) None)
            = Some (widget_of sel (folder_at [js ''d'']) None)" for sel
    by (simp add: tracker_of_def)
  have h2: "tf_model (treefinder (widget_of sel (folder_at [js ''d'']) None)) = Some (?m sel)"
    for sel
    by (simp add: widget_of_def)
  have h3: "selection (?m sel) = Some sel" for sel
    by simp
  have n: "\<exists>i \<in> set [?a, ?ro]. \<not> writable (row i)"
    by (simp add: mk_content_def)
  have y: "\<forall>i \<in> set [?a]. writable (row i)"
    by (simp add: mk_content_def)
  from cut_delete_require_writable [OF h1 h2 h3, of "[?a, ?ro]" None backend_ok] n
  have 1: "\<not> cut_isEnabled (tracker_of [?a, ?ro] (folder_at [js ''d'']) None)
           \<and> \<not> delete_isEnabled (tracker_of [?a, ?ro] (folder_at [js ''d'']) None)
           \<and> cutSelection [?a, ?ro] None
             = \<lparr>failed = Some PermissionDenied, clip = None, calls = [], copied = []\<rparr>
           \<and> deleteSelection backend_ok [?a, ?ro] None
             = \<lparr>failed = Some PermissionDenied, clip = None, calls = [], copied = []\<rparr>"
    by blast
  from cut_delete_require_writable [OF h1 h2 h3, of "[?a]" None backend_denies_deletes] y
  have 2: "cut_isEnabled (tracker_of [?a] (folder_at [js ''d'']) None)
           \<and> calls (deleteSelection backend_denies_deletes [?a] None)
             = map (\<lambda>i. BackendDelete (path (row i))) [?a]"
    by blast
  have "map (\<lambda>i. BackendDelete (path (row i))) [?a] = [BackendDelete [js ''d'', js ''a.txt'']]"
    by (simp add: mk_content_def)
  with 1 2 show ?thesis
    by simp
qed

text \<open>
  The Paste command does not look at the buffer: it is enabled whenever there is a
  current widget, and its handler hands the widget's model to \<^verbatim>\<open>pasteSelection\<close>.
\<close>

lemma paste_forwards_model:
  "currentWidget t = Some w \<Longrightarrow> paste_isEnabled t \<and> paste_execute t = Inr (tf_model (treefinder w))"
  by (simp add: paste_isEnabled_def paste_execute_def)

lemma map_filter_no_failure:
  "\<forall>i \<in> set xs. f i = None \<Longrightarrow> List.map_filter (\<lambda>i. map_option (g i) (f i)) xs = []"
  by (induction xs) (simp_all add: List.map_filter_simps)

text \<open>
  C2. For a selection of writable items, \<^verbatim>\<open>cutSelection\<close> stores the cut; a paste whose
  backend moves all succeed issues one move per item and clears the buffer; the next
  paste, into any target, fails with \<open>EmptyClipboard\<close> and issues no backend call.
\<close>

theorem cut_buffer_single_use:
  assumes "\<forall>i \<in> set sel. writable (row i)"
    and "\<forall>i \<in> set sel. be (BackendMove (path (row i)) target) = None"
  shows "cutSelection sel buf
           = \<lparr>failed = None, clip = Some \<lparr>mode = Cut, items = sel\<rparr>, calls = [], copied = []\<rparr>
         \<and> pasteSelection be target siblings (clip (cutSelection sel buf))
           = \<lparr>failed = None, clip = None,
              calls = map (\<lambda>i. BackendMove (path (row i)) target) sel, copied = []\<rparr>
         \<and> pasteSelection be' target' siblings'
             (clip (pasteSelection be target siblings (clip (cutSelection sel buf))))
           = \<lparr>failed = Some EmptyClipboard, clip = None, calls = [], copied = []\<rparr>"
proof -
  have cut: "cutSelection sel buf
           = \<lparr>failed = None, clip = Some \<lparr>mode = Cut, items = sel\<rparr>, calls = [], copied = []\<rparr>"
    using assms(1) by (simp add: cutSelection_def list_all_iff)
  have nf: "List.map_filter
              (\<lambda>i. map_option (Pair (path (row i))) (be (BackendMove (path (row i)) target))) sel
            = []"
    using assms(2) by (rule map_filter_no_failure)
  have paste: "pasteSelection be target siblings (Some \<lparr>mode = Cut, items = sel\<rparr>)
           = \<lparr>failed = None, clip = None,
              calls = map (\<lambda>i. BackendMove (path (row i)) target) sel, copied = []\<rparr>"
    by (simp add: pasteSelection_def nf aggregate_def)
  have again: "pasteSelection be' target' siblings' None
           = \<lparr>failed = Some EmptyClipboard, clip = None, calls = [], copied = []\<rparr>"
    by (simp add: pasteSelection_def)
  from cut paste again show ?thesis
    by simp
qed

theorem cut_buffer_single_use_witness:
  "pasteSelection backend_ok [js ''c''] []
     (clip (cutSelection [mk_content [''a'', ''b.txt''] ''file'' True] None))
     = \<lparr>failed = None, clip = None,
        calls = [BackendMove [js ''a'', js ''b.txt''] [js ''c'']], copied = []\<rparr>
   \<and> pasteSelection backend_ok [js ''c''] [js ''b.txt'']
       (clip (pasteSelection backend_ok [js ''c''] []
          (clip (cutSelection [mk_content [''a'', ''b.txt''] ''file'' True] None))))
     = \<lparr>failed = Some EmptyClipboard, clip = None, calls = [], copied = []\<rparr>"
proof -
  let ?b = "mk_content [''a'', ''b.txt''] ''file'' True"
  have w: "\<forall>i \<in> set [?b]. writable (row i)"
    by (simp add: mk_content_def)
  have ok: "\<forall>i \<in> set [?b]. backend_ok (BackendMove (path (row i)) [js ''c'']) = None"
    by (simp add: backend_ok_def)
  have m: "map (\<lambda>i. BackendMove (path (row i)) [js ''c'']) [?b]
        = [BackendMove [js ''a'', js ''b.txt''] [js ''c'']]"
    by (simp add: mk_content_def)
  show ?thesis
    using cut_buffer_single_use [OF w ok, of None "[]" backend_ok "[js ''c'']" "[js ''b.txt'']"]
    unfolding m by blast
qed


section \<open>Names of pasted copies\<close>

lemma next_free_free: "suffixed nm (next_free siblings nm k) \<notin> set siblings"
  by (induction siblings nm k rule: next_free.induct) (subst next_free.simps, simp)

lemma next_free_ge: "k \<le> next_free siblings nm k"
proof (induction siblings nm k rule: next_free.induct)
  case (1 siblings nm k)
  then show ?case
    by (subst next_free.simps) (auto simp: Suc_leD)
qed

lemma next_free_taken:
  "k \<le> j \<Longrightarrow> j < next_free siblings nm k \<Longrightarrow> suffixed nm j \<in> set siblings"
proof (induction siblings nm k rule: next_free.induct)
  case (1 siblings nm k)
  show ?case
  proof (cases "suffixed nm k \<in> set siblings")
    case True
    show ?thesis
    proof (cases "j = k")
      case True
      with \<open>suffixed nm k \<in> set siblings\<close> show ?thesis by simp
    next
      case False
      with "1.prems" have "Suc k \<le> j" by simp
      moreover from "1.prems" True have "j < next_free siblings nm (Suc k)"
        by (subst (asm) next_free.simps) simp
      ultimately show ?thesis
        using "1.IH" True by blast
    qed
  next
    case False
    with "1.prems" show ?thesis
      by (subst (asm) next_free.simps) simp
  qed
qed

lemma decimal_digit: "n < 10 \<Longrightarrow> decimal n = [digit n]"
  by (subst decimal.simps) simp

lemma suffixed_1_2: "suffixed nm 1 = nm @ js ''-1''" "suffixed nm 2 = nm @ js ''-2''"
  by (simp_all add: suffixed_def decimal_digit digit_def js_def)

lemma disambiguate_free: "disambiguate siblings nm \<notin> set siblings"
  by (simp add: disambiguate_def next_free_free)

lemma disambiguate_suffix:
  assumes "nm \<in> set siblings"
  shows "\<exists>k\<ge>1. disambiguate siblings nm = suffixed nm k
              \<and> (\<forall>j. 1 \<le> j \<and> j < k \<longrightarrow> suffixed nm j \<in> set siblings)"
proof -
  let ?k = "next_free siblings nm 1"
  have "1 \<le> ?k"
    by (rule next_free_ge)
  moreover have "disambiguate siblings nm = suffixed nm ?k"
    using assms by (simp add: disambiguate_def)
  moreover have "\<forall>j. 1 \<le> j \<and> j < ?k \<longrightarrow> suffixed nm j \<in> set siblings"
    using next_free_taken by blast
  ultimately show ?thesis
    by blast
qed

lemma disambiguate_first: "nm \<in> set siblings \<Longrightarrow> suffixed nm 1 \<notin> set siblings
  \<Longrightarrow> disambiguate siblings nm = suffixed nm 1"
  by (simp add: disambiguate_def) (subst next_free.simps, simp)

lemma disambiguate_second: "nm \<in> set siblings \<Longrightarrow> suffixed nm 1 \<in> set siblings
  \<Longrightarrow> suffixed nm 2 \<notin> set siblings \<Longrightarrow> disambiguate siblings nm = suffixed nm 2"
  by (simp add: disambiguate_def) (subst next_free.simps, simp, subst next_free.simps, simp add: numeral_2_eq_2)

lemma paste_copy_distinct:
  "distinct siblings \<Longrightarrow> distinct (siblings @ snd (snd (paste_copy be target siblings its)))"
proof (induction its arbitrary: siblings)
  case Nil
  then show ?case by simp
next
  case (Cons i rest)
  let ?n = "disambiguate siblings (row_name (row i))"
  show ?case
  proof (cases "be (BackendCopy (path (row i)) target ?n)")
    case None
    have "distinct (siblings @ [?n])"
      using Cons.prems disambiguate_free [of siblings "row_name (row i)"] by simp
    from Cons.IH [OF this] None show ?thesis
      by (auto simp: Let_def split: prod.splits)
  next
    case (Some e)
    with Cons.IH [OF Cons.prems] show ?thesis
      by (auto simp: Let_def split: prod.splits)
  qed
qed

lemma paste_single_ok:
  "pasteSelection backend_ok target siblings (Some \<lparr>mode = Copy, items = [i]\<rparr>)
   = \<lparr>failed = None, clip = Some \<lparr>mode = Copy, items = [i]\<rparr>,
      calls = [BackendCopy (path (row i)) target (disambiguate siblings (row_name (row i)))],
      copied = [disambiguate siblings (row_name (row i))]\<rparr>"
  by (simp add: pasteSelection_def backend_ok_def aggregate_def Let_def)

lemma paste_copy_append:
  "paste_copy be target siblings (xs @ ys) =
     (case paste_copy be target siblings xs of
        (cs, fs, ns) \<Rightarrow>
          (case paste_copy be target (siblings @ ns) ys of
             (cs', fs', ns') \<Rightarrow> (cs @ cs', fs @ fs', ns @ ns')))"
proof (induction xs arbitrary: siblings)
  case Nil
  show ?case by (simp split: prod.splits)
next
  case (Cons x xs)
  let ?n = "disambiguate siblings (row_name (row x))"
  show ?case
  proof (cases "be (BackendCopy (path (row x)) target ?n)")
    case None
    with Cons.IH [of "siblings @ [?n]"] show ?thesis
      by (simp add: Let_def split: prod.splits)
  next
    case (Some e)
    with Cons.IH [of siblings] show ?thesis
      by (simp add: Let_def split: prod.splits)
  qed
qed

lemma paste_copy_snoc:
  "paste_copy be target siblings (its @ [x]) =
     (case paste_copy be target siblings its of
        (cs, fs, ns) \<Rightarrow>
          (let n = disambiguate (siblings @ ns) (row_name (row x));
               c = BackendCopy (path (row x)) target n
           in case be c of
                None \<Rightarrow> (cs @ [c], fs, ns @ [n])
              | Some e \<Rightarrow> (cs @ [c], fs @ [(path (row x), e)], ns)))"
  by (simp add: paste_copy_append Let_def split: prod.splits option.splits)

lemma aggregate_None: "aggregate fs = None \<longleftrightarrow> fs = []"
  by (simp add: aggregate_def)

lemma pasteSelection_copy_Nil:
  "pasteSelection be target siblings (Some \<lparr>mode = Copy, items = []\<rparr>)
   = \<lparr>failed = None, clip = Some \<lparr>mode = Copy, items = []\<rparr>, calls = [], copied = []\<rparr>"
  by (simp add: pasteSelection_def aggregate_def)

lemma digit_range: "d < 10 \<Longrightarrow> 0x30 \<le> digit d \<and> digit d \<le> 0x39"
proof -
  assume d: "d < 10"
  have u: "unat (digit d) = 48 + d"
    unfolding digit_def using d by (subst unat_of_nat) simp
  show ?thesis
    using u d by (simp add: word_le_nat_alt)
qed

lemma digit_zero: "d < 10 \<Longrightarrow> digit d = 0x30 \<longleftrightarrow> d = 0"
proof -
  assume d: "d < 10"
  have u: "unat (digit d) = 48 + d"
    unfolding digit_def using d by (subst unat_of_nat) simp
  show ?thesis
  proof
    assume "digit d = 0x30"
    then have "unat (digit d) = unat (0x30 :: 16 word)" by simp
    with u show "d = 0" by simp
  next
    assume "d = 0"
    then show "digit d = 0x30" by (simp add: digit_def)
  qed
qed

lemma decimal_digits:
  "decimal k \<noteq> [] \<and> (\<forall>c \<in> set (decimal k). 0x30 \<le> c \<and> c \<le> 0x39)
   \<and> (0 < k \<longrightarrow> hd (decimal k) \<noteq> 0x30)"
proof (induction k rule: decimal.induct)
  case (1 n)
  show ?case
  proof (cases "n < 10")
    case True
    then show ?thesis
      by (subst (1 2 3) decimal.simps) (simp add: digit_range digit_zero)
  next
    case False
    then have pos: "0 < n div 10" by simp
    from False 1 have ih: "decimal (n div 10) \<noteq> []"
      "\<forall>c \<in> set (decimal (n div 10)). 0x30 \<le> c \<and> c \<le> 0x39"
      "hd (decimal (n div 10)) \<noteq> 0x30"
      using pos by simp_all
    have r: "0x30 \<le> digit (n mod 10) \<and> digit (n mod 10) \<le> 0x39"
      by (rule digit_range) simp
    have e: "decimal n = decimal (n div 10) @ [digit (n mod 10)]"
      using False by (subst decimal.simps) simp
    show ?thesis
      unfolding e using ih r by (auto simp: hd_append)
  qed
qed

lemma pasteSelection_copy_snoc:
  "let p = pasteSelection be target siblings (Some \<lparr>mode = Copy, items = its\<rparr>);
       q = pasteSelection be target siblings (Some \<lparr>mode = Copy, items = its @ [x]\<rparr>);
       n = disambiguate (siblings @ copied p) (row_name (row x));
       c = BackendCopy (path (row x)) target n
   in calls q = calls p @ [c]
      \<and> copied q = copied p @ (if be c = None then [n] else [])
      \<and> (failed q = None \<longleftrightarrow> failed p = None \<and> be c = None)
      \<and> clip q = Some \<lparr>mode = Copy, items = its @ [x]\<rparr>"
  by (auto simp: pasteSelection_def paste_copy_snoc Let_def aggregate_None
      split: prod.splits option.splits)

text \<open>
  C3. In a copy-mode paste an item keeps its name when no sibling in the target has it;
  the name given is never a sibling's; on a collision the name is \<^verbatim>\<open>name-k\<close> for the
  first \<open>k \<ge> 1\<close> whose suffixed name is free, where \<open>k\<close> is written as its decimal numeral
  (digits only, no leading zero), \<^verbatim>\<open>name-1\<close> and \<^verbatim>\<open>name-2\<close> being the first two. This
  holds for every item of every buffer and every backend: the paste of no item issues
  no call, and the paste of a buffer extended by an item \<open>x\<close> issues the calls of the
  shorter buffer and then the copy of \<open>x\<close> under its name disambiguated against the
  siblings and the copies made before it; the copy's name is recorded when the backend
  accepts the call, and the paste succeeds when every call did. The buffer stays, and
  the names in the target stay distinct. In particular, with a backend that succeeds and
  a target in which \<^verbatim>\<open>name\<close>, \<^verbatim>\<open>name-1\<close> and \<^verbatim>\<open>name-2\<close> are free, pasting the same
  one-item buffer into the target gives \<^verbatim>\<open>name\<close>, then \<^verbatim>\<open>name-1\<close> once \<^verbatim>\<open>name\<close> is
  there, then \<^verbatim>\<open>name-2\<close>.
\<close>

theorem paste_copy_disambiguates:
  "(nm \<notin> set siblings \<longrightarrow> disambiguate siblings nm = nm)
   \<and> disambiguate siblings nm \<notin> set siblings
   \<and> (nm \<in> set siblings
        \<longrightarrow> (\<exists>k\<ge>1. disambiguate siblings nm = suffixed nm k
                    \<and> (\<forall>j. 1 \<le> j \<and> j < k \<longrightarrow> suffixed nm j \<in> set siblings)))
   \<and> (\<forall>k. suffixed nm k = nm @ js ''-'' @ decimal k
            \<and> decimal_value (decimal k) = k \<and> decimal k \<noteq> []
            \<and> (\<forall>c \<in> set (decimal k). 0x30 \<le> c \<and> c \<le> 0x39)
            \<and> (0 < k \<longrightarrow> hd (decimal k) \<noteq> 0x30))
   \<and> suffixed nm 1 = nm @ js ''-1'' \<and> suffixed nm 2 = nm @ js ''-2''
   \<and> pasteSelection be target siblings (Some \<lparr>mode = Copy, items = []\<rparr>)
       = \<lparr>failed = None, clip = Some \<lparr>mode = Copy, items = []\<rparr>, calls = [], copied = []\<rparr>
   \<and> (\<forall>its x.
         let p = pasteSelection be target siblings (Some \<lparr>mode = Copy, items = its\<rparr>);
             q = pasteSelection be target siblings (Some \<lparr>mode = Copy, items = its @ [x]\<rparr>);
             n = disambiguate (siblings @ copied p) (row_name (row x));
             c = BackendCopy (path (row x)) target n
         in calls q = calls p @ [c]
            \<and> copied q = copied p @ (if be c = None then [n] else [])
            \<and> (failed q = None \<longleftrightarrow> failed p = None \<and> be c = None)
            \<and> clip q = Some \<lparr>mode = Copy, items = its @ [x]\<rparr>)
   \<and> (distinct siblings
        \<longrightarrow> distinct (siblings
               @ copied (pasteSelection be target siblings (Some \<lparr>mode = Copy, items = its\<rparr>))))
   \<and> (row_name (row i) = nm \<and> nm \<notin> set siblings \<and> nm @ js ''-1'' \<notin> set siblings
        \<and> nm @ js ''-2'' \<notin> set siblings
        \<longrightarrow> (let b = Some \<lparr>mode = Copy, items = [i]\<rparr>;
                 r1 = pasteSelection backend_ok target siblings b;
                 r2 = pasteSelection backend_ok target (siblings @ [nm]) b;
                 r3 = pasteSelection backend_ok target (siblings @ [nm, nm @ js ''-1'']) b
             in copied r1 = [nm] \<and> copied r2 = [nm @ js ''-1''] \<and> copied r3 = [nm @ js ''-2'']
                \<and> calls r1 = [BackendCopy (path (row i)) target nm]
                \<and> calls r2 = [BackendCopy (path (row i)) target (nm @ js ''-1'')]
                \<and> nm \<noteq> nm @ js ''-1''
                \<and> failed r1 = None \<and> failed r2 = None \<and> clip r1 = b \<and> clip r2 = b))"
proof -
  have 1: "nm \<notin> set siblings \<longrightarrow> disambiguate siblings nm = nm"
    by (simp add: disambiguate_def)
  have 5: "distinct siblings
        \<longrightarrow> distinct (siblings
               @ copied (pasteSelection be target siblings (Some \<lparr>mode = Copy, items = its\<rparr>)))"
    using paste_copy_distinct [of siblings be target its]
    by (auto simp: pasteSelection_def split: prod.splits)
  have 6: "(let b = Some \<lparr>mode = Copy, items = [i]\<rparr>;
                 r1 = pasteSelection backend_ok target siblings b;
                 r2 = pasteSelection backend_ok target (siblings @ [nm]) b;
                 r3 = pasteSelection backend_ok target (siblings @ [nm, nm @ js ''-1'']) b
             in copied r1 = [nm] \<and> copied r2 = [nm @ js ''-1''] \<and> copied r3 = [nm @ js ''-2'']
                \<and> calls r1 = [BackendCopy (path (row i)) target nm]
                \<and> calls r2 = [BackendCopy (path (row i)) target (nm @ js ''-1'')]
                \<and> nm \<noteq> nm @ js ''-1''
                \<and> failed r1 = None \<and> failed r2 = None \<and> clip r1 = b \<and> clip r2 = b)"
    if n: "row_name (row i) = nm" and f0: "nm \<notin> set siblings"
      and f1: "nm @ js ''-1'' \<notin> set siblings" and f2: "nm @ js ''-2'' \<notin> set siblings"
  proof -
    have d0: "disambiguate siblings nm = nm"
      using f0 by (simp add: disambiguate_def)
    note s1 = suffixed_1_2(1) [of nm] and s2 = suffixed_1_2(2) [of nm]
    have neq: "nm @ js ''-1'' \<noteq> nm" "nm @ js ''-2'' \<noteq> nm" "nm @ js ''-2'' \<noteq> nm @ js ''-1''"
      by (simp_all add: js_def)
    have d1: "disambiguate (siblings @ [nm]) nm = nm @ js ''-1''"
    proof -
      have "nm \<in> set (siblings @ [nm])"
        by simp
      moreover have "suffixed nm 1 \<notin> set (siblings @ [nm])"
        unfolding s1 using f1 neq by simp
      ultimately have "disambiguate (siblings @ [nm]) nm = suffixed nm 1"
        by (rule disambiguate_first)
      then show ?thesis
        unfolding s1 .
    qed
    have d2: "disambiguate (siblings @ [nm, nm @ js ''-1'']) nm = nm @ js ''-2''"
    proof -
      have "nm \<in> set (siblings @ [nm, nm @ js ''-1''])"
        by simp
      moreover have "suffixed nm 1 \<in> set (siblings @ [nm, nm @ js ''-1''])"
        unfolding s1 by simp
      moreover have "suffixed nm 2 \<notin> set (siblings @ [nm, nm @ js ''-1''])"
        unfolding s2 using f2 neq by simp
      ultimately have "disambiguate (siblings @ [nm, nm @ js ''-1'']) nm = suffixed nm 2"
        by (rule disambiguate_second)
      then show ?thesis
        unfolding s2 .
    qed
    show ?thesis
      using neq(1) by (simp add: Let_def paste_single_ok n d0 d1 d2)
  qed
  have 4: "\<forall>k. suffixed nm k = nm @ js ''-'' @ decimal k
            \<and> decimal_value (decimal k) = k \<and> decimal k \<noteq> []
            \<and> (\<forall>c \<in> set (decimal k). 0x30 \<le> c \<and> c \<le> 0x39)
            \<and> (0 < k \<longrightarrow> hd (decimal k) \<noteq> 0x30)"
    using decimal_digits by (simp add: suffixed_def decimal_value_decimal)
  have 7: "\<forall>its x.
         let p = pasteSelection be target siblings (Some \<lparr>mode = Copy, items = its\<rparr>);
             q = pasteSelection be target siblings (Some \<lparr>mode = Copy, items = its @ [x]\<rparr>);
             n = disambiguate (siblings @ copied p) (row_name (row x));
             c = BackendCopy (path (row x)) target n
         in calls q = calls p @ [c]
            \<and> copied q = copied p @ (if be c = None then [n] else [])
            \<and> (failed q = None \<longleftrightarrow> failed p = None \<and> be c = None)
            \<and> clip q = Some \<lparr>mode = Copy, items = its @ [x]\<rparr>"
    using pasteSelection_copy_snoc by blast
  note 8 = pasteSelection_copy_Nil [of be target siblings]
  from 1 disambiguate_free disambiguate_suffix suffixed_1_2 4 5 6 7 8 show ?thesis
    by blast
qed

theorem paste_copy_disambiguates_witness:
  "copied (pasteSelection backend_ok [js ''c''] [js ''readme'']
             (Some \<lparr>mode = Copy, items = [mk_content [''a'', ''b.txt''] ''file'' True]\<rparr>))
     = [js ''b.txt'']
   \<and> copied (pasteSelection backend_ok [js ''c''] [js ''readme'', js ''b.txt'']
             (Some \<lparr>mode = Copy, items = [mk_content [''a'', ''b.txt''] ''file'' True]\<rparr>))
     = [js ''b.txt-1'']
   \<and> copied (pasteSelection backend_ok [js ''c''] [js ''readme'', js ''b.txt'', js ''b.txt-1'']
             (Some \<lparr>mode = Copy, items = [mk_content [''a'', ''b.txt''] ''file'' True]\<rparr>))
     = [js ''b.txt-2'']
   \<and> disambiguate [js ''readme'', js ''b.txt'', js ''b.txt-1''] (js ''readme'') = js ''readme-1''
   \<and> distinct ([js ''readme'']
         @ copied (pasteSelection backend_ok [js ''c''] [js ''readme'']
             (Some \<lparr>mode = Copy, items = [mk_content [''a'', ''b.txt''] ''file'' True,
                                            mk_content [''x'', ''b.txt''] ''file'' True]\<rparr>)))
   \<and> calls (pasteSelection backend_ok [js ''c''] [js ''readme'']
             (Some \<lparr>mode = Copy, items = [mk_content [''a'', ''b.txt''] ''file'' True,
                                            mk_content [''x'', ''b.txt''] ''file'' True]\<rparr>))
     = [BackendCopy [js ''a'', js ''b.txt''] [js ''c''] (js ''b.txt''),
        BackendCopy [js ''x'', js ''b.txt''] [js ''c''] (js ''b.txt-1'')]
   \<and> copied (pasteSelection backend_ok [js ''c''] [js ''readme'']
             (Some \<lparr>mode = Copy, items = [mk_content [''a'', ''b.txt''] ''file'' True,
                                            mk_content [''x'', ''b.txt''] ''file'' True]\<rparr>))
     = [js ''b.txt'', js ''b.txt-1'']
   \<and> suffixed (js ''b.txt'') 12 = js ''b.txt-12''"
proof -
  let ?b = "mk_content [''a'', ''b.txt''] ''file'' True"
  let ?x = "mk_content [''x'', ''b.txt''] ''file'' True"
  note v = paste_copy_disambiguates
    [where nm = "js ''b.txt''" and siblings = "[js ''readme'']" and i = ?b
       and target = "[js ''c'']" and be = backend_ok and its = "[?b, ?x]"]
  have "distinct [js ''readme'']"
    by simp
  with v have 3: "distinct ([js ''readme'']
         @ copied (pasteSelection backend_ok [js ''c''] [js ''readme'']
             (Some \<lparr>mode = Copy, items = [?b, ?x]\<rparr>)))"
    by blast
  note t = paste_copy_disambiguates
    [where nm = "js ''b.txt''" and siblings = "[js ''readme'']" and i = ?b
       and target = "[js ''c'']" and be = backend_ok and its = "[]"]
  have "row_name (row ?b) = js ''b.txt'' \<and> js ''b.txt'' \<notin> set [js ''readme'']
        \<and> js ''b.txt'' @ js ''-1'' \<notin> set [js ''readme'']
        \<and> js ''b.txt'' @ js ''-2'' \<notin> set [js ''readme'']"
    by (simp add: mk_content_def js_def)
  with t have 1: "copied (pasteSelection backend_ok [js ''c''] [js ''readme'']
                  (Some \<lparr>mode = Copy, items = [?b]\<rparr>)) = [js ''b.txt'']
     \<and> copied (pasteSelection backend_ok [js ''c''] ([js ''readme''] @ [js ''b.txt''])
                  (Some \<lparr>mode = Copy, items = [?b]\<rparr>)) = [js ''b.txt'' @ js ''-1'']
     \<and> copied (pasteSelection backend_ok [js ''c'']
                  ([js ''readme''] @ [js ''b.txt'', js ''b.txt'' @ js ''-1''])
                  (Some \<lparr>mode = Copy, items = [?b]\<rparr>)) = [js ''b.txt'' @ js ''-2'']"
    unfolding Let_def by blast
  note u = paste_copy_disambiguates
    [where nm = "js ''readme''" and siblings = "[js ''readme'', js ''b.txt'', js ''b.txt-1'']"
       and i = ?b and target = "[js ''c'']" and be = backend_ok and its = "[]"]
  have "js ''readme'' \<in> set [js ''readme'', js ''b.txt'', js ''b.txt-1'']"
    by simp
  with u obtain k where k: "1 \<le> k"
    "disambiguate [js ''readme'', js ''b.txt'', js ''b.txt-1''] (js ''readme'')
       = suffixed (js ''readme'') k"
    "\<forall>j. 1 \<le> j \<and> j < k \<longrightarrow> suffixed (js ''readme'') j
          \<in> set [js ''readme'', js ''b.txt'', js ''b.txt-1'']"
    by blast
  from u have free: "disambiguate [js ''readme'', js ''b.txt'', js ''b.txt-1''] (js ''readme'')
                     \<notin> set [js ''readme'', js ''b.txt'', js ''b.txt-1'']"
    and s1: "suffixed (js ''readme'') 1 = js ''readme'' @ js ''-1''"
    by blast+
  have "k = 1"
  proof (rule ccontr)
    assume "k \<noteq> 1"
    with k(1) have "1 \<le> (1::nat) \<and> 1 < k"
      by simp
    with k(3) have "suffixed (js ''readme'') 1 \<in> set [js ''readme'', js ''b.txt'', js ''b.txt-1'']"
      by blast
    then show False
      unfolding s1 by (simp add: js_def)
  qed
  with k(2) s1 have 2: "disambiguate [js ''readme'', js ''b.txt'', js ''b.txt-1''] (js ''readme'')
                        = js ''readme-1''"
    by (simp add: js_def)
  have a: "js ''b.txt'' @ js ''-1'' = js ''b.txt-1''" "js ''b.txt'' @ js ''-2'' = js ''b.txt-2''"
    by (simp_all add: js_def)
  let ?P = "\<lambda>l. pasteSelection backend_ok [js ''c''] [js ''readme'']
                  (Some \<lparr>mode = Copy, items = l\<rparr>)"
  from v have nil: "?P [] = \<lparr>failed = None, clip = Some \<lparr>mode = Copy, items = []\<rparr>,
                             calls = [], copied = []\<rparr>"
    by blast
  from v have snoc: "\<forall>its x.
         let p = ?P its; q = ?P (its @ [x]);
             n = disambiguate ([js ''readme''] @ copied p) (row_name (row x));
             c = BackendCopy (path (row x)) [js ''c''] n
         in calls q = calls p @ [c]
            \<and> copied q = copied p @ (if backend_ok c = None then [n] else [])
            \<and> (failed q = None \<longleftrightarrow> failed p = None \<and> backend_ok c = None)
            \<and> clip q = Some \<lparr>mode = Copy, items = its @ [x]\<rparr>"
    by blast
  have rn: "row_name (row ?b) = js ''b.txt''" "row_name (row ?x) = js ''b.txt''"
    and pa: "path (row ?b) = [js ''a'', js ''b.txt'']" "path (row ?x) = [js ''x'', js ''b.txt'']"
    by (simp_all add: mk_content_def)
  have n1: "disambiguate [js ''readme''] (js ''b.txt'') = js ''b.txt''"
    by (simp add: disambiguate_def js_def)
  have n2: "disambiguate [js ''readme'', js ''b.txt''] (js ''b.txt'') = js ''b.txt-1''"
  proof -
    have "disambiguate [js ''readme'', js ''b.txt''] (js ''b.txt'') = suffixed (js ''b.txt'') 1"
      by (rule disambiguate_first) (unfold suffixed_1_2, simp_all add: js_def)
    then show ?thesis
      unfolding suffixed_1_2 by (simp add: js_def)
  qed
  from snoc [rule_format, of "[]" ?b]
  have one: "calls (?P [?b]) = [BackendCopy [js ''a'', js ''b.txt''] [js ''c''] (js ''b.txt'')]
             \<and> copied (?P [?b]) = [js ''b.txt'']"
    unfolding Let_def nil by (simp add: rn pa n1 backend_ok_def)
  from snoc [rule_format, of "[?b]" ?x]
  have two: "calls (?P [?b, ?x])
               = [BackendCopy [js ''a'', js ''b.txt''] [js ''c''] (js ''b.txt''),
                  BackendCopy [js ''x'', js ''b.txt''] [js ''c''] (js ''b.txt-1'')]
             \<and> copied (?P [?b, ?x]) = [js ''b.txt'', js ''b.txt-1'']"
    unfolding Let_def by (simp add: one rn pa n2 backend_ok_def)
  from v have "suffixed (js ''b.txt'') 12 = js ''b.txt'' @ js ''-'' @ decimal 12"
    by blast
  moreover have "decimal 12 = js ''12''"
    by (subst decimal.simps, simp, subst decimal.simps, simp add: digit_def js_def)
  ultimately have 4: "suffixed (js ''b.txt'') 12 = js ''b.txt-12''"
    by (simp add: js_def)
  from 1 2 3 two 4 show ?thesis
    unfolding a by simp
qed

end
